theory Spec2Isabelle
  imports Main "HOL-Library.Sublist"
begin

section \<open>JavaScript strings\<close>

text \<open>
  A JavaScript string is modelled as a \<^typ>\<open>string\<close> holding its UTF-8 bytes; a
  property that may be \<^verbatim>\<open>undefined\<close> is a \<^typ>\<open>string option\<close>. The tests of the
  source that only ask for truthiness (\<^verbatim>\<open>ev.time ? ... : ...\<close>, \<^verbatim>\<open>a || b\<close>) see
  \<^verbatim>\<open>undefined\<close> and the empty string alike.
\<close>

definition truthy :: "string option \<Rightarrow> bool" where
  "truthy v = (case v of None \<Rightarrow> False | Some s \<Rightarrow> s \<noteq> [])"

text \<open>Interpolation \<^verbatim>\<open>${v}\<close> inside a template literal.\<close>

definition interp :: "string option \<Rightarrow> string" where
  "interp v = (case v of None \<Rightarrow> ''undefined'' | Some s \<Rightarrow> s)"

text \<open>\<^verbatim>\<open>a || b\<close> on strings.\<close>

definition orElse :: "string option \<Rightarrow> string \<Rightarrow> string" where
  "orElse v d = (case v of None \<Rightarrow> d | Some s \<Rightarrow> if s = [] then d else s)"

text \<open>\<^verbatim>\<open>s.split(c)\<close> for a separator of one character: never the empty array.\<close>

fun jsSplit :: "char \<Rightarrow> string \<Rightarrow> string list" where
  "jsSplit c [] = [[]]"
| "jsSplit c (x # xs) =
     (if x = c then [] # jsSplit c xs
      else (case jsSplit c xs of [] \<Rightarrow> [[x]] | w # ws \<Rightarrow> (x # w) # ws))"

text \<open>\<^verbatim>\<open>arr[i]\<close>: \<^verbatim>\<open>undefined\<close> out of range.\<close>

definition at :: "'a list \<Rightarrow> nat \<Rightarrow> 'a option" where
  "at xs i = (if i < length xs then Some (xs ! i) else None)"

text \<open>\<^verbatim>\<open>s.replace(a, b)\<close> for single characters: the first occurrence only.\<close>

fun replaceFirst :: "char \<Rightarrow> char \<Rightarrow> string \<Rightarrow> string" where
  "replaceFirst a b [] = []"
| "replaceFirst a b (x # xs) = (if x = a then b # xs else x # replaceFirst a b xs)"

text \<open>
  White space as \<^verbatim>\<open>parseInt\<close> and \<^verbatim>\<open>trim\<close> skip it: the code points of
  \<^verbatim>\<open>WhiteSpace\<close> and \<^verbatim>\<open>LineTerminator\<close> of ECMAScript (tab, LF, VT, FF, CR, space,
  U+00A0, U+1680, U+2000 to U+200A, U+2028, U+2029, U+202F, U+205F, U+3000, U+FEFF),
  each as its UTF-8 bytes.
\<close>

definition whiteSpace :: "string list" where
  "whiteSpace =
     [[CHR 0x09], [CHR 0x0A], [CHR 0x0B], [CHR 0x0C], [CHR 0x0D], [CHR 0x20],
      [CHR 0xC2, CHR 0xA0], [CHR 0xE1, CHR 0x9A, CHR 0x80],
      [CHR 0xE2, CHR 0x80, CHR 0x80], [CHR 0xE2, CHR 0x80, CHR 0x81],
      [CHR 0xE2, CHR 0x80, CHR 0x82], [CHR 0xE2, CHR 0x80, CHR 0x83],
      [CHR 0xE2, CHR 0x80, CHR 0x84], [CHR 0xE2, CHR 0x80, CHR 0x85],
      [CHR 0xE2, CHR 0x80, CHR 0x86], [CHR 0xE2, CHR 0x80, CHR 0x87],
      [CHR 0xE2, CHR 0x80, CHR 0x88], [CHR 0xE2, CHR 0x80, CHR 0x89],
      [CHR 0xE2, CHR 0x80, CHR 0x8A], [CHR 0xE2, CHR 0x80, CHR 0xA8],
      [CHR 0xE2, CHR 0x80, CHR 0xA9], [CHR 0xE2, CHR 0x80, CHR 0xAF],
      [CHR 0xE2, CHR 0x81, CHR 0x9F], [CHR 0xE3, CHR 0x80, CHR 0x80],
      [CHR 0xEF, CHR 0xBB, CHR 0xBF]]"

text \<open>
  Dropping from the front of \<open>s\<close> every leading occurrence of one of the byte sequences
  \<open>ws\<close> (none of which is empty).
\<close>

function skipAll :: "string list \<Rightarrow> string \<Rightarrow> string" where
  "skipAll ws s =
     (case find (\<lambda>w. w \<noteq> [] \<and> prefix w s) ws of
        None \<Rightarrow> s
      | Some w \<Rightarrow> skipAll ws (drop (length w) s))"
  by pat_completeness auto
termination
  by (relation "measure (\<lambda>(ws, s). length s)") (auto simp add: find_Some_iff prefix_def)

declare skipAll.simps [simp del]

definition digitOf :: "char \<Rightarrow> nat option" where
  "digitOf c = map_of (zip ''0123456789'' [0, 1, 2, 3, 4, 5, 6, 7, 8, 9]) c"

definition isDigit :: "char \<Rightarrow> bool" where
  "isDigit c = (digitOf c \<noteq> None)"

definition digitsValue :: "string \<Rightarrow> nat" where
  "digitsValue ds = foldl (\<lambda>n c. 10 * n + (case digitOf c of Some d \<Rightarrow> d | None \<Rightarrow> 0)) 0 ds"

text \<open>
  \<^verbatim>\<open>parseInt(s, 10)\<close>: leading white space, an optional sign, then the longest run of
  decimal digits; \<^verbatim>\<open>NaN\<close> (here \<^const>\<open>None\<close>) when there is no digit.
\<close>

definition parseInt :: "string \<Rightarrow> int option" where
  "parseInt s =
     (let t = skipAll whiteSpace s;
          neg = (t \<noteq> [] \<and> hd t = CHR ''-'');
          u = (if t \<noteq> [] \<and> (hd t = CHR ''-'' \<or> hd t = CHR ''+'') then tl t else t);
          ds = takeWhile isDigit u
      in if ds = [] then None
         else Some ((if neg then - 1 else 1) * int (digitsValue ds)))"

text \<open>\<^verbatim>\<open>n > 30\<close> on the result of \<^verbatim>\<open>parseInt\<close>: every comparison with \<^verbatim>\<open>NaN\<close> is false.\<close>

definition gt30 :: "int option \<Rightarrow> bool" where
  "gt30 m = (case m of None \<Rightarrow> False | Some n \<Rightarrow> n > 30)"

definition jsTrim :: "string \<Rightarrow> string" where
  "jsTrim s = rev (skipAll (map rev whiteSpace) (rev (skipAll whiteSpace s)))"

text \<open>
  \<^verbatim>\<open>s.toLowerCase()\<close>, on the letters of ASCII. The listener only compares the result
  with \<^verbatim>\<open>!start1\<close>, \<^verbatim>\<open>!stop1\<close>, \<^verbatim>\<open>!reset1\<close> and \<^verbatim>\<open>recap\<close>; no character
  outside ASCII is lowered to a letter of these words.
\<close>

definition toLowerCase :: "string \<Rightarrow> string" where
  "toLowerCase s =
     map (\<lambda>c. case map_of (zip ''ABCDEFGHIJKLMNOPQRSTUVWXYZ'' ''abcdefghijklmnopqrstuvwxyz'') c of
                 Some l \<Rightarrow> l
               | None \<Rightarrow> c) s"

text \<open>\<^verbatim>\<open>arr.join(sep)\<close>.\<close>

fun joinWith :: "string \<Rightarrow> string list \<Rightarrow> string" where
  "joinWith sep [] = []"
| "joinWith sep [x] = x"
| "joinWith sep (x # y # ys) = x @ sep @ joinWith sep (y # ys)"

definition nl :: string where "nl = [CHR 0x0A]"
definition uuml :: string where "uuml = [CHR 0xC3, CHR 0xBC]"
definition auml :: string where "auml = [CHR 0xC3, CHR 0xA4]"
definition ouml :: string where "ouml = [CHR 0xC3, CHR 0xB6]"
definition dquote :: string where "dquote = [CHR 0x22]"

section \<open>Data of the feed and of a ticker\<close>

text \<open>An event of the feed, as \<^verbatim>\<open>processEvents\<close> and the formatters read it.\<close>

record event =
  ev_id :: string
  ev_type :: string
  ev_time :: "string option"
  ev_score :: "string option"
  ev_team :: "string option"
  ev_message :: "string option"
  ev_timestamp :: int

record teamNames =
  home :: string
  guest :: string

text \<open>
  \<^verbatim>\<open>gameData.summary\<close>. \<open>startsAt\<close> is \<^verbatim>\<open>new Date(summary.startsAt).getTime()\<close>,
  \<^const>\<open>None\<close> for an invalid date; \<open>homeTeam\<close> and \<open>awayTeam\<close> hold the \<^verbatim>\<open>name\<close> of the
  team object, \<^const>\<open>None\<close> when the object is missing (reading its name throws).
\<close>

record summary =
  startsAt :: "int option"
  homeTeam :: "string option"
  awayTeam :: "string option"
  updatedAt :: "string option"

datatype eventsField = NoEvents | NotAnArray | EventList "event list"

text \<open>The lineup is only handed on to the statistics and summary collaborators.\<close>

type_synonym lineup = string

record gameData =
  gd_summary :: "summary option"
  gd_events :: eventsField
  gd_lineup :: lineup

datatype mode = Live | Recap

text \<open>
  The ticker state object. The three flags are \<^verbatim>\<open>undefined\<close> or boolean in the source
  and only tested for truthiness. \<open>seen\<close> is the \<^verbatim>\<open>Set\<close> in insertion order.
  \<open>recapEvents\<close> is \<^verbatim>\<open>[]\<close> also where the source leaves it \<^verbatim>\<open>undefined\<close>: every
  reader treats the two alike. The timer fields hold the handle of the last timer
  armed; clearing a timer does not reset the field.
\<close>

record tickerState =
  seen :: "string list"
  isPolling :: bool
  isScheduling :: bool
  isScheduled :: bool
  meetingPageUrl :: "string option"
  groupName :: "string option"
  mode :: "mode option"
  recapEvents :: "event list"
  teamNames :: "teamNames option"
  lastUpdatedAt :: "string option"
  scheduleTimeout :: "nat option"
  recapIntervalId :: "nat option"

text \<open>\<^verbatim>\<open>{ seen: new Set() }\<close>\<close>

definition newTickerState :: tickerState where
  "newTickerState =
     \<lparr>seen = [], isPolling = False, isScheduling = False, isScheduled = False,
      meetingPageUrl = None, groupName = None, mode = None, recapEvents = [],
      teamNames = None, lastUpdatedAt = None, scheduleTimeout = None,
      recapIntervalId = None\<rparr>"

section \<open>config.js and the formatters of utils.js\<close>

text \<open>\<^verbatim>\<open>EVENT_MAP\<close>: type \<open>\<mapsto>\<close> (label, emoji), in the order of the source.\<close>

definition EVENT_MAP :: "(string \<times> (string \<times> string)) list" where
  "EVENT_MAP =
   [(''StartPeriod'', (''Spielbeginn'', [CHR 0xE2, CHR 0x96, CHR 0xB6, CHR 0xEF, CHR 0xB8, CHR 0x8F])),
    (''StopPeriod'', (''Periodenende'', [CHR 0xE2, CHR 0x8F, CHR 0xB8, CHR 0xEF, CHR 0xB8, CHR 0x8F])),
    (''Goal'', (''Tor'', [CHR 0xF0, CHR 0x9F, CHR 0xA4, CHR 0xBE, CHR 0xE2, CHR 0x80, CHR 0x8D,
                          CHR 0xE2, CHR 0x99, CHR 0x80, CHR 0xEF, CHR 0xB8, CHR 0x8F])),
    (''SevenMeterGoal'', (''7-Meter Tor'', ''7'' @ [CHR 0xEF, CHR 0xB8, CHR 0x8F, CHR 0xE2, CHR 0x83,
                          CHR 0xA3, CHR 0xE2, CHR 0x9C, CHR 0x85])),
    (''SevenMeterMissed'', (''7-Meter Fehlwurf'', ''7'' @ [CHR 0xEF, CHR 0xB8, CHR 0x8F, CHR 0xE2,
                          CHR 0x83, CHR 0xA3, CHR 0xE2, CHR 0x9D, CHR 0x8C])),
    (''TwoMinutePenalty'', (''Zeitstrafe'', [CHR 0xE2, CHR 0x9C, CHR 0x8C, CHR 0xF0, CHR 0x9F,
                          CHR 0x8F, CHR 0xBC])),
    (''Warning'', (''Gelbe Karte'', [CHR 0xF0, CHR 0x9F, CHR 0x9F, CHR 0xA8])),
    (''Timeout'', (''Timeout'', [CHR 0xE2, CHR 0x8F, CHR 0xB1, CHR 0xEF, CHR 0xB8, CHR 0x8F])),
    (''Disqualification'', (''Rote Karte'', [CHR 0xF0, CHR 0x9F, CHR 0x9F, CHR 0xA5])),
    (''DisqualificationWithReport'', (''Blaue Karte'', [CHR 0xF0, CHR 0x9F, CHR 0x9F, CHR 0xA6])),
    (''default'', (''Ereignis'', [CHR 0xF0, CHR 0x9F, CHR 0x93, CHR 0xA2]))]"

definition label :: "string \<times> string \<Rightarrow> string" where "label i = fst i"
definition emoji :: "string \<times> string \<Rightarrow> string" where "emoji i = snd i"

text \<open>
  The names that the table, an object literal, inherits from \<^verbatim>\<open>Object.prototype\<close>.
\<close>

definition inherited :: "string list" where
  "inherited =
     [''constructor'', ''__defineGetter__'', ''__defineSetter__'', ''hasOwnProperty'',
      ''__lookupGetter__'', ''__lookupSetter__'', ''isPrototypeOf'', ''propertyIsEnumerable'',
      ''toString'', ''valueOf'', ''__proto__'', ''toLocaleString'']"

text \<open>
  \<^verbatim>\<open>EVENT_MAP[ev.type] || EVENT_MAP["default"]\<close>, as the label and the emoji read from
  the result. For an inherited name the look-up finds a member of the prototype, which
  is truthy and has neither property: both read as \<^verbatim>\<open>undefined\<close>.
\<close>

definition eventInfo :: "string \<Rightarrow> string option \<times> string option" where
  "eventInfo ty =
     (case map_of EVENT_MAP ty of
        Some i \<Rightarrow> (Some (label i), Some (emoji i))
      | None \<Rightarrow>
          if ty \<in> set inherited then (None, None)
          else (Some ''Ereignis'', Some [CHR 0xF0, CHR 0x9F, CHR 0x93, CHR 0xA2]))"

definition infoLabel :: "string option \<times> string option \<Rightarrow> string option" where
  "infoLabel i = fst i"

definition infoEmoji :: "string option \<times> string option \<Rightarrow> string option" where
  "infoEmoji i = snd i"

text \<open>\<^verbatim>\<open>a || b\<close> where \<^verbatim>\<open>b\<close> may be \<^verbatim>\<open>undefined\<close>.\<close>

definition orUndefined :: "string option \<Rightarrow> string option \<Rightarrow> string option" where
  "orUndefined v d = (if truthy v then v else d)"

text \<open>
  \<^verbatim>\<open>formatEvent(ev, tickerState, gameSummary)\<close>. \<^const>\<open>None\<close> is the \<^verbatim>\<open>TypeError\<close> of
  \<^verbatim>\<open>ev.score.split\<close> or \<^verbatim>\<open>ev.time.split\<close> on a missing property.
\<close>

definition formatEvent :: "event \<Rightarrow> tickerState \<Rightarrow> summary option \<Rightarrow> string option" where
  "formatEvent ev t gameSummary =
     (let info = eventInfo (ev_type ev);
          homeTeamName = (case teamNames t of Some n \<Rightarrow> home n | None \<Rightarrow> ''Heim'');
          guestTeamName = (case teamNames t of Some n \<Rightarrow> guest n | None \<Rightarrow> ''Gast'');
          time = (if truthy (ev_time ev) then '' ('' @ interp (ev_time ev) @ '')'' else [])
      in if ev_type ev = ''Goal'' \<or> ev_type ev = ''SevenMeterGoal'' then
           (case ev_score ev of
              None \<Rightarrow> None
            | Some sc \<Rightarrow>
                (let pointsHome = interp (at (jsSplit CHR ''-'' sc) 0);
                     pointsGuest = interp (at (jsSplit CHR ''-'' sc) 1);
                     scoreLine =
                       (if ev_team ev = Some ''Home''
                        then homeTeamName @ ''  *'' @ pointsHome @ ''*:'' @ pointsGuest @ ''  ''
                               @ guestTeamName
                        else homeTeamName @ ''  '' @ pointsHome @ '':*'' @ pointsGuest @ ''* ''
                               @ guestTeamName)
                 in Some (scoreLine @ nl @ interp (infoEmoji info) @ '' ''
                            @ interp (ev_message ev) @ '' ('' @ time @ '')'')))
         else if ev_type ev \<in> set [''SevenMeterMissed'', ''TwoMinutePenalty'', ''Warning'',
                                    ''Disqualification'', ''DisqualificationWithReport'', ''Timeout'']
         then Some (interp (infoEmoji info) @ '' '' @ interp (ev_message ev) @ '' (''
                      @ time @ '')'')
         else if ev_type ev = ''StartPeriod'' then
           (if ev_time ev = Some ''00:00''
            then Some ([CHR 0xE2, CHR 0x96, CHR 0xB6, CHR 0xEF, CHR 0xB8, CHR 0x8F]
                         @ '' *Das Spiel hat begonnen!*'')
            else Some ([CHR 0xE2, CHR 0x96, CHR 0xB6, CHR 0xEF, CHR 0xB8, CHR 0x8F]
                         @ '' *Die zweite Halbzeit hat begonnen!*''))
         else if ev_type ev = ''StopPeriod'' then
           (case (ev_score ev, ev_time ev) of
              (Some sc, Some tm) \<Rightarrow>
                (let homeScore = interp (at (jsSplit CHR ''-'' sc) 0);
                     awayScore = interp (at (jsSplit CHR ''-'' sc) 1);
                     minute = parseInt (hd (jsSplit CHR '':'' tm))
                 in if gt30 minute
                    then Some ([CHR 0xF0, CHR 0x9F, CHR 0x8F, CHR 0x81] @ '' *Spielende*'' @ nl
                                 @ homeTeamName @ ''  *'' @ homeScore @ '':'' @ awayScore @ ''* ''
                                 @ guestTeamName)
                    else Some ([CHR 0xE2, CHR 0x8F, CHR 0xB8, CHR 0xEF, CHR 0xB8, CHR 0x8F]
                                 @ '' *Halbzeit*'' @ nl
                                 @ homeTeamName @ ''  *'' @ homeScore @ '':'' @ awayScore @ ''* ''
                                 @ guestTeamName))
            | _ \<Rightarrow> None)
         else Some (interp (infoEmoji info) @ '' ''
                      @ interp (orUndefined (ev_message ev) (infoLabel info))
                      @ '' ('' @ time @ '')''))"

text \<open>\<^verbatim>\<open>formatRecapEventLine(ev, tickerState)\<close>\<close>

definition formatRecapEventLine :: "event \<Rightarrow> tickerState \<Rightarrow> string" where
  "formatRecapEventLine ev t =
     (let info = eventInfo (ev_type ev);
          time = orElse (ev_time ev) ''--:--'';
          scoreStr = (if truthy (ev_score ev)
                      then replaceFirst CHR ''-'' CHR '':'' (interp (ev_score ev)) else ''--:--'');
          detailStr = interp (orUndefined (ev_message ev) (infoLabel info))
      in if ev_type ev = ''Goal'' \<or> ev_type ev = ''SevenMeterGoal'' then
           (let h = interp (at (jsSplit CHR '':'' scoreStr) 0);
                a = interp (at (jsSplit CHR '':'' scoreStr) 1);
                scoreStr' = (if ev_team ev = Some ''Home'' then ''*'' @ h @ ''*:'' @ a
                             else h @ '':*'' @ a @ ''*'')
            in interp (infoEmoji info) @ '' '' @ time @ '' | '' @ scoreStr' @ '' | '' @ detailStr)
         else if ev_type ev = ''StartPeriod'' \<or> ev_type ev = ''StopPeriod'' then
           interp (infoEmoji info) @ '' '' @ time @ '' | *'' @ detailStr @ ''* | *'' @ scoreStr @ ''*''
         else interp (infoEmoji info) @ '' '' @ time @ '' | '' @ scoreStr @ '' | '' @ detailStr)"


section \<open>The shared state of polling.js and app.js\<close>

type_synonym chatId = string

text \<open>
  Ticker state objects are shared by reference: the registry, a poll job and a running
  worker may each hold the same object, and a worker keeps its object after the registry
  has dropped or replaced it. An object is therefore an address into a heap.
\<close>

type_synonym addr = nat

datatype jobType = Schedule | Poll

record job =
  job_type :: jobType
  job_chatId :: chatId
  job_meetingPageUrl :: "string option"
  job_groupName :: "string option"
  job_mode :: "mode option"
  job_tickerState :: "addr option"
  jobId :: int

text \<open>What a pending \<^verbatim>\<open>setTimeout\<close> or \<^verbatim>\<open>setInterval\<close> callback will do.\<close>

datatype timerAction =
    CallBeginActualPolling chatId
  | CallSendRecapMessage chatId
  | SendStats chatId string
  | SendSummary chatId string
  | SendFinalMessage chatId
  | Cleanup chatId

record timer =
  tm_handle :: nat
  tm_delay :: int
  tm_interval :: bool
  tm_action :: timerAction

record scheduleSnapshot =
  ss_meetingPageUrl :: "string option"
  ss_startTime :: string
  ss_groupName :: "string option"
  ss_mode :: "mode option"

text \<open>
  Effects on the outside, in the order they happen: a message handed to the messenger
  (with whether the call resolved), and a write of either file.
\<close>

datatype effect =
    Sent chatId string bool
  | Replied chatId string bool
  | SavedSeen
  | SavedSchedule

text \<open>
  \<open>activeTickers\<close> is the \<^verbatim>\<open>Map\<close> in insertion order. \<open>inflight\<close> holds the workers
  suspended at \<^verbatim>\<open>await axios.get\<close>, each with its job and the ticker object it read
  before suspending. \<open>scheduleFile\<close> and \<open>seenFile\<close> are what
  \<^verbatim>\<open>loadScheduledTickers\<close> and \<^verbatim>\<open>loadSeenTickers\<close> would read; writes are taken to
  succeed. \<open>clock\<close> is \<^verbatim>\<open>Date.now()\<close>. Console output is not modelled.
\<close>

record sys =
  heap :: "addr \<Rightarrow> tickerState"
  nextAddr :: addr
  activeTickers :: "(chatId \<times> addr) list"
  jobQueue :: "job list"
  lastPolledIndex :: int
  activeWorkers :: int
  inflight :: "(job \<times> addr) list"
  timers :: "timer list"
  nextTimer :: nat
  scheduleFile :: "chatId \<rightharpoonup> scheduleSnapshot"
  seenFile :: "(chatId \<times> string list) list"
  outbox :: "effect list"
  sends :: nat
  clock :: int

definition initSys :: sys where
  "initSys =
     \<lparr>heap = (\<lambda>_. newTickerState), nextAddr = 0, activeTickers = [], jobQueue = [],
      lastPolledIndex = - 1, activeWorkers = 0, inflight = [], timers = [], nextTimer = 0,
      scheduleFile = Map.empty, seenFile = [], outbox = [], sends = 0, clock = 0\<rparr>"

definition MAX_WORKERS :: int where "MAX_WORKERS = 2"
definition PRE_GAME_START_MINUTES :: int where "PRE_GAME_START_MINUTES = 5"
definition RECAP_INTERVAL_MINUTES :: int where "RECAP_INTERVAL_MINUTES = 5"

text \<open>
  What the program cannot decide itself: whether \<^verbatim>\<open>new URL(s)\<close> accepts a string,
  whether the \<open>n\<close>-th call of the messenger resolves, what the statistics and summary
  collaborators of ai.js return (\<^const>\<open>None\<close>: they reject), and how a date prints.
\<close>

record env =
  validUrl :: "string \<Rightarrow> bool"
  sendOk :: "nat \<Rightarrow> bool"
  extractGameStats :: "lineup \<Rightarrow> teamNames option \<Rightarrow> string option"
  generateGameSummary ::
    "event list \<Rightarrow> teamNames option \<Rightarrow> string option \<Rightarrow> lineup \<Rightarrow> string option"
  toLocaleTimeString :: "int option \<Rightarrow> string"
  toLocaleDateString :: "int option \<Rightarrow> string"
  toISOString :: "int \<Rightarrow> string"

text \<open>How an \<^verbatim>\<open>async\<close> function ends: it returns a value or it throws.\<close>

datatype 'a completion = Returns 'a | Throws

subsection \<open>The Map, the heap, timers, messenger and files\<close>

definition mapGet :: "('k \<times> 'v) list \<Rightarrow> 'k \<Rightarrow> 'v option" where
  "mapGet m k = map_of m k"

definition mapSet :: "('k \<times> 'v) list \<Rightarrow> 'k \<Rightarrow> 'v \<Rightarrow> ('k \<times> 'v) list" where
  "mapSet m k v =
     (if map_of m k = None then m @ [(k, v)]
      else map (\<lambda>kv. if fst kv = k then (k, v) else kv) m)"

definition mapDelete :: "('k \<times> 'v) list \<Rightarrow> 'k \<Rightarrow> ('k \<times> 'v) list" where
  "mapDelete m k = filter (\<lambda>kv. fst kv \<noteq> k) m"

definition updTicker :: "addr \<Rightarrow> (tickerState \<Rightarrow> tickerState) \<Rightarrow> sys \<Rightarrow> sys" where
  "updTicker a f s = s\<lparr>heap := (heap s)(a := f (heap s a))\<rparr>"

definition setTimer :: "sys \<Rightarrow> int \<Rightarrow> bool \<Rightarrow> timerAction \<Rightarrow> sys" where
  "setTimer s d rep act =
     s\<lparr>timers := timers s @ [\<lparr>tm_handle = nextTimer s, tm_delay = d, tm_interval = rep,
                               tm_action = act\<rparr>],
       nextTimer := nextTimer s + 1\<rparr>"

text \<open>\<^verbatim>\<open>if (h) clearTimeout(h)\<close> and \<^verbatim>\<open>if (h) clearInterval(h)\<close>\<close>

definition clearTimer :: "sys \<Rightarrow> nat option \<Rightarrow> sys" where
  "clearTimer s h =
     (case h of None \<Rightarrow> s
      | Some i \<Rightarrow> s\<lparr>timers := filter (\<lambda>t. tm_handle t \<noteq> i) (timers s)\<rparr>)"

text \<open>\<^verbatim>\<open>await client.sendMessage(chatId, text)\<close>: the state after, and whether it resolved.\<close>

definition sendMessage :: "env \<Rightarrow> sys \<Rightarrow> chatId \<Rightarrow> string \<Rightarrow> sys \<times> bool" where
  "sendMessage e s c txt =
     (s\<lparr>outbox := outbox s @ [Sent c txt (sendOk e (sends s))], sends := sends s + 1\<rparr>,
      sendOk e (sends s))"

text \<open>\<^verbatim>\<open>await msg.reply(text)\<close>\<close>

definition reply :: "env \<Rightarrow> sys \<Rightarrow> chatId \<Rightarrow> string \<Rightarrow> sys \<times> bool" where
  "reply e s c txt =
     (s\<lparr>outbox := outbox s @ [Replied c txt (sendOk e (sends s))], sends := sends s + 1\<rparr>,
      sendOk e (sends s))"

text \<open>\<^verbatim>\<open>saveSeenTickers(activeTickers, seenFilePath)\<close> of utils.js\<close>

definition saveSeenTickers :: "sys \<Rightarrow> sys" where
  "saveSeenTickers s =
     s\<lparr>seenFile := map (\<lambda>ca. (fst ca, seen (heap s (snd ca)))) (activeTickers s),
       outbox := outbox s @ [SavedSeen]\<rparr>"

text \<open>
  The recurring
  \<^verbatim>\<open>cur = loadScheduledTickers(f); if (cur[chatId]) { delete cur[chatId]; saveScheduledTickers(cur, f) }\<close>
\<close>

definition removeSchedule :: "sys \<Rightarrow> chatId \<Rightarrow> sys" where
  "removeSchedule s c =
     (if scheduleFile s c = None then s
      else s\<lparr>scheduleFile := (scheduleFile s)(c := None), outbox := outbox s @ [SavedSchedule]\<rparr>)"

text \<open>
  \<^verbatim>\<open>i = jobQueue.findIndex(job => job.chatId === chatId); if (i > -1) jobQueue.splice(i, 1)\<close>
\<close>

fun removeFirstJob :: "chatId \<Rightarrow> job list \<Rightarrow> job list" where
  "removeFirstJob c [] = []"
| "removeFirstJob c (j # js) = (if job_chatId j = c then js else j # removeFirstJob c js)"

text \<open>\<^verbatim>\<open>jobQueue.some(job => job.chatId === chatId && job.type === 'poll')\<close>\<close>

definition hasPollJob :: "job list \<Rightarrow> chatId \<Rightarrow> bool" where
  "hasPollJob q c = (\<exists>j \<in> set q. job_chatId j = c \<and> job_type j = Poll)"


section \<open>The fixed texts\<close>

text \<open>The texts the bot sends, in the order of the source: polling.js, then app.js.\<close>

definition invalidUrlNotice :: string where
  "invalidUrlNotice = ''Fehler: Die angegebene URL ist ung'' @ uuml @ ''ltig.''"

definition planningNotice :: "string \<Rightarrow> string" where
  "planningNotice g =
     [CHR 0xE2, CHR 0x8F, CHR 0xB3] @ '' Ticker-Planung f'' @ uuml @ ''r '' @ dquote @ g @ dquote
       @ '' wird bearbeitet...''"

definition scheduledNotice :: "teamNames \<Rightarrow> mode option \<Rightarrow> string \<Rightarrow> string \<Rightarrow> string" where
  "scheduledNotice names m startDateLocale startTimeLocale =
     [CHR 0xE2, CHR 0x9C, CHR 0x85] @ '' Ticker f'' @ uuml @ ''r *'' @ home names @ ''* vs *''
       @ guest names @ ''* ist geplant (''
       @ (if m = Some Recap then ''im Recap-Modus (5-Minuten-Zusammenfassungen)''
          else ''mit Live-Updates'')
       @ '') und startet automatisch am '' @ startDateLocale @ '' um ca. '' @ startTimeLocale
       @ '' Uhr.''"

definition startMessage :: "teamNames \<Rightarrow> mode option \<Rightarrow> string" where
  "startMessage names m =
     [CHR 0xE2, CHR 0x96, CHR 0xB6, CHR 0xEF, CHR 0xB8, CHR 0x8F] @ '' Ticker f'' @ uuml @ ''r *''
       @ home names @ ''* vs *'' @ guest names @ ''* wird sofort gestartet. ''
       @ (if m = Some Recap
          then ''Du erh'' @ auml @ ''ltst alle 5 Minuten eine Zusammenfassung. ''
                 @ [CHR 0xF0, CHR 0x9F, CHR 0x93, CHR 0xAC]
          else ''Du erh'' @ auml @ ''ltst alle Events live! '' @ [CHR 0xE2, CHR 0x9A, CHR 0xBD])"

definition recapMessage :: "string \<Rightarrow> teamNames \<Rightarrow> string list \<Rightarrow> string" where
  "recapMessage timeRangeTitle n validLines =
     (let teamHeader = ''*'' @ home n @ ''* : *'' @ guest n @ ''*'';
          recapBody = joinWith nl validLines
      in [CHR 0xF0, CHR 0x9F, CHR 0x93, CHR 0xAC] @ '' *Recap '' @ timeRangeTitle @ ''*'' @ nl @ nl
           @ teamHeader @ nl @ recapBody)"

definition failureNotice :: string where
  "failureNotice =
     ''Fehler: Die initiale Planung des Tickers ist fehlgeschlagen. Bitte versuchen Sie es erneut.''"

definition finalMessage :: string where
  "finalMessage =
     ''Vielen Dank f'' @ uuml @ ''rs Mitfiebern! '' @ [CHR 0xF0, CHR 0x9F, CHR 0xA5, CHR 0xB3]
       @ nl @ nl @ ''Den Quellcode f'' @ uuml @ ''r diesen Bot k'' @ ouml
       @ ''nnt ihr hier einsehen:'' @ nl
       @ ''https://github.com/nambatu/whatsapp-liveticker-bot/''"

definition groupsOnlyNotice :: string where
  "groupsOnlyNotice = ''Fehler: Befehle funktionieren nur in Gruppen.''"

definition alreadyActiveNotice :: string where
  "alreadyActiveNotice =
     ''In dieser Gruppe l'' @ auml
       @ ''uft oder ist bereits ein Live-Ticker geplant. Stoppen oder resetten Sie ihn zuerst.''"

definition criticalErrorNotice :: string where
  "criticalErrorNotice =
     ''Ein kritischer Fehler ist aufgetreten und der Ticker konnte nicht gestartet werden.''"

definition stoppedNotice :: string where
  "stoppedNotice = ''Laufender/geplanter Live-Ticker in dieser Gruppe gestoppt.''"

definition notRunningNotice :: string where
  "notRunningNotice = ''In dieser Gruppe l'' @ auml @ ''uft derzeit kein Live-Ticker.''"

definition resetNotice :: string where
  "resetNotice =
     ''Alle Ticker-Daten f'' @ uuml @ ''r diese Gruppe wurden zur'' @ uuml @ ''ckgesetzt.''"

definition usageNotice :: string where
  "usageNotice =
     ''Fehler: Bitte geben Sie eine g'' @ uuml @ ''ltige URL an. Format:'' @ nl @ nl
       @ ''!start <URL> [recap]''"

section \<open>polling.js\<close>

subsection \<open>queueTickerScheduling\<close>

definition queueTickerScheduling ::
    "env \<Rightarrow> sys \<Rightarrow> string \<Rightarrow> chatId \<Rightarrow> string \<Rightarrow> mode \<Rightarrow> sys \<times> unit completion" where
  "queueTickerScheduling e s url c g m =
     (if \<not> validUrl e url then
        (let (s1, ok) = sendMessage e s c invalidUrlNotice
         in (s1, if ok then Returns () else Throws))
      else
        (let a = (case mapGet (activeTickers s) c of Some a \<Rightarrow> a | None \<Rightarrow> nextAddr s);
             s1 = (case mapGet (activeTickers s) c of
                     Some _ \<Rightarrow> s
                   | None \<Rightarrow> s\<lparr>heap := (heap s)(nextAddr s := newTickerState),
                                nextAddr := nextAddr s + 1\<rparr>);
             s2 = updTicker a
                    (\<lambda>t. t\<lparr>isPolling := False, isScheduling := True, meetingPageUrl := Some url,
                           groupName := Some g, mode := Some m, recapEvents := []\<rparr>) s1;
             s3 = s2\<lparr>activeTickers := mapSet (activeTickers s2) c a\<rparr>;
             s4 = s3\<lparr>jobQueue := jobQueue s3 @
                       [\<lparr>job_type = Schedule, job_chatId = c, job_meetingPageUrl = Some url,
                         job_groupName = Some g, job_mode = Some m, job_tickerState = None,
                         jobId = clock s\<rparr>]\<rparr>;
             (s5, ok) = sendMessage e s4 c (planningNotice g)
         in (s5, if ok then Returns () else Throws)))"

subsection \<open>beginActualPolling\<close>

definition legendMessage :: string where
  "legendMessage =
     foldl (\<lambda>acc ki. if fst ki = ''default'' \<or> fst ki = ''StartPeriod'' \<or> fst ki = ''StopPeriod''
                      then acc
                      else acc @ emoji (snd ki) @ '' = '' @ label (snd ki) @ nl)
       ([CHR 0xE2, CHR 0x84, CHR 0xB9, CHR 0xEF, CHR 0xB8, CHR 0x8F] @ '' *Ticker-Legende:*'' @ nl)
       EVENT_MAP"

text \<open>
  The function is \<^verbatim>\<open>async\<close> but catches the one call that can reject, so it never
  throws. Its only \<^verbatim>\<open>await\<close> is the legend message; the test for a queued poll job and
  the \<^verbatim>\<open>unshift\<close> follow it without a further \<^verbatim>\<open>await\<close>.
\<close>

definition beginActualPolling :: "env \<Rightarrow> sys \<Rightarrow> chatId \<Rightarrow> sys" where
  "beginActualPolling e s c =
     (case mapGet (activeTickers s) c of
        None \<Rightarrow> removeSchedule s c
      | Some a \<Rightarrow>
          if isPolling (heap s a) then s
          else
            (let s1 = updTicker a (\<lambda>t. t\<lparr>isPolling := True, isScheduled := False\<rparr>) s;
                 s2 = removeSchedule s1 c;
                 s3 = (if mode (heap s2 a) = Some Recap
                       then fst (sendMessage e s2 c (jsTrim legendMessage)) else s2);
                 s4 = (if mode (heap s3 a) = Some Recap
                       then (let s' = clearTimer s3 (recapIntervalId (heap s3 a))
                             in updTicker a (\<lambda>t. t\<lparr>recapIntervalId := Some (nextTimer s')\<rparr>)
                                  (setTimer s' (RECAP_INTERVAL_MINUTES * 60 * 1000) True
                                     (CallSendRecapMessage c)))
                       else s3)
             in if \<not> hasPollJob (jobQueue s4) c
                then s4\<lparr>jobQueue :=
                          \<lparr>job_type = Poll, job_chatId = c,
                           job_meetingPageUrl = meetingPageUrl (heap s4 a),
                           job_groupName = None, job_mode = None, job_tickerState = Some a,
                           jobId = clock s4\<rparr> # jobQueue s4\<rparr>
                else s4))"

subsection \<open>sendRecapMessage\<close>

text \<open>
  \<^const>\<open>Throws\<close> is the \<^verbatim>\<open>TypeError\<close> of \<^verbatim>\<open>tickerState.teamNames.home\<close> when the ticker
  has no team names: the header is built outside the \<^verbatim>\<open>try\<close>. The sort is in place
  and stable.
\<close>

definition sendRecapMessage :: "env \<Rightarrow> sys \<Rightarrow> chatId \<Rightarrow> sys \<times> unit completion" where
  "sendRecapMessage e s c =
     (case mapGet (activeTickers s) c of
        None \<Rightarrow> (s, Returns ())
      | Some a \<Rightarrow>
          if \<not> isPolling (heap s a) \<or> recapEvents (heap s a) = []
          then (updTicker a (\<lambda>t. t\<lparr>recapEvents := []\<rparr>) s, Returns ())
          else
            (let s1 = updTicker a
                        (\<lambda>t. t\<lparr>recapEvents := sort_key ev_timestamp (recapEvents t)\<rparr>) s;
                 evs = recapEvents (heap s1 a);
                 firstEventTime = ev_time (hd evs);
                 lastEventTime = ev_time (last evs);
                 startMinute = (if truthy firstEventTime
                                then hd (jsSplit CHR '':'' (interp firstEventTime)) else ''0'');
                 endMinute = (if truthy lastEventTime
                              then hd (jsSplit CHR '':'' (interp lastEventTime)) else ''??'');
                 timeRangeTitle = ''Minute '' @ startMinute @ '' - '' @ endMinute;
                 recapLines = map (\<lambda>ev. formatRecapEventLine ev (heap s1 a)) evs;
                 validLines = filter (\<lambda>line. line \<noteq> [] \<and> jsTrim line \<noteq> []) recapLines
             in if validLines = []
                then (updTicker a (\<lambda>t. t\<lparr>recapEvents := []\<rparr>) s1, Returns ())
                else
                  (case teamNames (heap s1 a) of
                     None \<Rightarrow> (s1, Throws)
                   | Some n \<Rightarrow>
                       (let s2 = fst (sendMessage e s1 c
                                        (recapMessage timeRangeTitle n validLines))
                        in (updTicker a (\<lambda>t. t\<lparr>recapEvents := []\<rparr>) s2, Returns ())))))"

subsection \<open>masterScheduler and dispatcherLoop\<close>

text \<open>The remainder operator \<^verbatim>\<open>%\<close> for a positive divisor: the sign of the dividend.\<close>

definition jsRem :: "int \<Rightarrow> int \<Rightarrow> int" where
  "jsRem a b = (if a < 0 then - ((- a) mod b) else a mod b)"

text \<open>
  \<^verbatim>\<open>pollingTickers[i]\<close>, then the key under which the registry holds that very object.
\<close>

definition masterScheduler :: "sys \<Rightarrow> sys" where
  "masterScheduler s =
     (let pollingTickers = filter (\<lambda>a. isPolling (heap s a)) (map snd (activeTickers s))
      in if pollingTickers = [] then s
         else
           (let i = jsRem (lastPolledIndex s + 1) (int (length pollingTickers));
                s1 = s\<lparr>lastPolledIndex := i\<rparr>;
                tickerStateToPoll = (if i < 0 then None else at pollingTickers (nat i));
                chatId = (case tickerStateToPoll of
                            None \<Rightarrow> None
                          | Some a \<Rightarrow> map_option fst (find (\<lambda>kv. snd kv = a) (activeTickers s)))
            in case (chatId, tickerStateToPoll) of
                 (Some c, Some a) \<Rightarrow>
                   if c \<noteq> [] \<and> isPolling (heap s1 a) \<and> \<not> hasPollJob (jobQueue s1) c
                   then s1\<lparr>jobQueue := jobQueue s1 @
                             [\<lparr>job_type = Poll, job_chatId = c,
                               job_meetingPageUrl = meetingPageUrl (heap s1 a),
                               job_groupName = None, job_mode = None,
                               job_tickerState = Some a, jobId = clock s1\<rparr>]\<rparr>
                   else s1
               | _ \<Rightarrow> s1))"


subsection \<open>processEvents\<close>

text \<open>
  The block under \<^verbatim>\<open>if (minute > 30)\<close>. Each collaborator is awaited inside its own
  \<^verbatim>\<open>try\<close>; when it rejects, its timer is not armed.
\<close>

definition gameEnd :: "env \<Rightarrow> gameData \<Rightarrow> event list \<Rightarrow> addr \<Rightarrow> chatId \<Rightarrow> sys \<Rightarrow> sys" where
  "gameEnd e gd events a c s =
     (let s1 = updTicker a (\<lambda>t. t\<lparr>isPolling := False\<rparr>) s;
          s2 = clearTimer s1 (recapIntervalId (heap s1 a));
          s3 = s2\<lparr>jobQueue := removeFirstJob c (jobQueue s2)\<rparr>;
          s4 = (case extractGameStats e (gd_lineup gd) (teamNames (heap s3 a)) of
                  Some statsMessage \<Rightarrow> setTimer s3 1000 False (SendStats c statsMessage)
                | None \<Rightarrow> s3);
          s5 = (case generateGameSummary e events (teamNames (heap s4 a)) (groupName (heap s4 a))
                       (gd_lineup gd) of
                  Some summary \<Rightarrow> setTimer s4 2000 False (SendSummary c summary)
                | None \<Rightarrow> s4);
          s6 = setTimer s5 4000 False (SendFinalMessage c)
      in setTimer s6 3600000 False (Cleanup c))"

text \<open>How one pass through the body of the \<^verbatim>\<open>for\<close> loop ends.\<close>

datatype passEnd =
    Skipped     \<comment> \<open>\<^verbatim>\<open>continue\<close>: the id was seen\<close>
  | Processed   \<comment> \<open>the end of the body\<close>
  | Ended       \<comment> \<open>\<^verbatim>\<open>break\<close>\<close>
  | Raised      \<comment> \<open>an exception leaves the loop and the function\<close>

text \<open>
  \<^verbatim>\<open>ev.time ? parseInt(ev.time.split(':')[0], 10) : 0\<close> compared with 30.
\<close>

definition isGameEnd :: "event \<Rightarrow> bool" where
  "isGameEnd ev =
     (ev_type ev = ''StopPeriod'' \<and>
      (if truthy (ev_time ev)
       then gt30 (parseInt (hd (jsSplit CHR '':'' (interp (ev_time ev))))) else False))"

definition loopBody ::
    "env \<Rightarrow> gameData \<Rightarrow> event list \<Rightarrow> addr \<Rightarrow> chatId \<Rightarrow> event \<Rightarrow> sys \<Rightarrow> sys \<times> passEnd" where
  "loopBody e gd events a c ev s =
     (if ev_id ev \<in> set (seen (heap s a)) then (s, Skipped)
      else
        (let s1 = updTicker a (\<lambda>t. t\<lparr>seen := seen t @ [ev_id ev]\<rparr>) s
         in case (if mode (heap s1 a) = Some Live
                  then formatEvent ev (heap s1 a) (gd_summary gd) else Some []) of
              None \<Rightarrow> (s1, Raised)
            | Some msg \<Rightarrow>
                (let s2 = (if mode (heap s1 a) = Some Live \<and> msg \<noteq> []
                           then fst (sendMessage e s1 c msg)
                           else if mode (heap s1 a) = Some Recap
                           then updTicker a (\<lambda>t. t\<lparr>recapEvents := recapEvents t @ [ev]\<rparr>) s1
                           else s1);
                     isCriticalEvent = (ev_type ev = ''StopPeriod'' \<or> ev_type ev = ''StartPeriod'')
                 in case (if isCriticalEvent \<and> mode (heap s2 a) = Some Recap
                          then sendRecapMessage e s2 c else (s2, Returns ())) of
                      (s3, Throws) \<Rightarrow> (s3, Raised)
                    | (s3, Returns _) \<Rightarrow>
                        if isGameEnd ev then (gameEnd e gd events a c s3, Ended)
                        else (s3, Processed))))"

text \<open>
  The \<^verbatim>\<open>for\<close> loop, with \<^verbatim>\<open>newUnseenEventsProcessed\<close> as the last argument.
\<close>

fun eventLoop ::
    "env \<Rightarrow> gameData \<Rightarrow> event list \<Rightarrow> addr \<Rightarrow> chatId \<Rightarrow> event list \<Rightarrow> sys \<Rightarrow> bool
       \<Rightarrow> sys \<times> bool completion" where
  "eventLoop e gd events a c [] s new = (s, Returns new)"
| "eventLoop e gd events a c (ev # rest) s new =
     (case loopBody e gd events a c ev s of
        (s', Skipped) \<Rightarrow> eventLoop e gd events a c rest s' new
      | (s', Processed) \<Rightarrow> eventLoop e gd events a c rest s' True
      | (s', Ended) \<Rightarrow> (s', Returns True)
      | (s', Raised) \<Rightarrow> (s', Throws))"

definition processEvents ::
    "env \<Rightarrow> sys \<Rightarrow> gameData \<Rightarrow> addr \<Rightarrow> chatId \<Rightarrow> sys \<times> bool completion" where
  "processEvents e s gd a c =
     (case gd_events gd of
        EventList evs \<Rightarrow> eventLoop e gd (rev evs) a c (rev evs) s False
      | _ \<Rightarrow> (s, Returns False))"

subsection \<open>runWorker\<close>

text \<open>What \<^verbatim>\<open>await axios.get\<close> gives: a rejection, or \<^verbatim>\<open>metaRes.data.data\<close>.\<close>

datatype fetchResult = FetchError | Response "gameData option"

text \<open>The branch \<^verbatim>\<open>delay > 0\<close> of a schedule job; \<open>st\<close> is \<^verbatim>\<open>startTime.getTime()\<close>.\<close>

definition scheduleLater ::
    "env \<Rightarrow> sys \<Rightarrow> chatId \<Rightarrow> addr \<Rightarrow> teamNames \<Rightarrow> int \<Rightarrow> sys \<times> unit completion" where
  "scheduleLater e s c a names st =
     (let (s2, ok) = sendMessage e s c
            (scheduledNotice names (mode (heap s a)) (toLocaleDateString e (Some st))
               (toLocaleTimeString e (Some st)))
      in if \<not> ok then (s2, Throws)
         else
           (let s3 = updTicker a (\<lambda>t. t\<lparr>isPolling := False, isScheduled := True\<rparr>) s2;
                s4 = s3\<lparr>scheduleFile := (scheduleFile s3)(c \<mapsto>
                          \<lparr>ss_meetingPageUrl = meetingPageUrl (heap s3 a),
                           ss_startTime = toISOString e st,
                           ss_groupName = groupName (heap s3 a),
                           ss_mode = mode (heap s3 a)\<rparr>),
                        outbox := outbox s3 @ [SavedSchedule]\<rparr>;
                s5 = updTicker a (\<lambda>t. t\<lparr>scheduleTimeout := Some (nextTimer s4)\<rparr>)
                       (setTimer s4 (st - clock s) False (CallBeginActualPolling c))
            in (s5, Returns ())))"

text \<open>
  The branch \<^verbatim>\<open>else\<close>. \<^verbatim>\<open>beginActualPolling\<close> is called without \<^verbatim>\<open>await\<close>; it
  cannot throw, and what it does after its own \<^verbatim>\<open>await\<close> touches nothing the rest of
  the worker reads, so it is run here to its end.
\<close>

definition startNow ::
    "env \<Rightarrow> sys \<Rightarrow> chatId \<Rightarrow> addr \<Rightarrow> teamNames \<Rightarrow> sys \<times> unit completion" where
  "startNow e s c a names =
     (let (s2, ok) = sendMessage e s c (startMessage names (mode (heap s a)))
      in if \<not> ok then (s2, Throws)
         else (beginActualPolling e (updTicker a (\<lambda>t. t\<lparr>isScheduling := False\<rparr>) s2) c,
               Returns ()))"

text \<open>
  \<^verbatim>\<open>if (type === 'schedule') { ... }\<close>. An invalid date makes \<open>delay\<close> \<^verbatim>\<open>NaN\<close>, and
  \<^verbatim>\<open>NaN > 0\<close> is false. Reading the name of a missing team object throws.
\<close>

definition scheduleJob ::
    "env \<Rightarrow> sys \<Rightarrow> job \<Rightarrow> addr \<Rightarrow> summary \<Rightarrow> sys \<times> unit completion" where
  "scheduleJob e s j a gameSummary =
     (let startTime = map_option (\<lambda>t. t - PRE_GAME_START_MINUTES * 60000) (startsAt gameSummary)
      in case (homeTeam gameSummary, awayTeam gameSummary) of
           (Some h, Some g) \<Rightarrow>
             (let names = \<lparr>home = h, guest = g\<rparr>;
                  s1 = updTicker a
                         (\<lambda>t. t\<lparr>teamNames := Some names, lastUpdatedAt := updatedAt gameSummary,
                                meetingPageUrl := job_meetingPageUrl j\<rparr>) s
              in case startTime of
                   Some st \<Rightarrow>
                     if st - clock s > 0 then scheduleLater e s1 (job_chatId j) a names st
                     else startNow e s1 (job_chatId j) a names
                 | None \<Rightarrow> startNow e s1 (job_chatId j) a names)
         | _ \<Rightarrow> (s, Throws))"

text \<open>\<^verbatim>\<open>else if (type === 'poll') { ... }\<close>\<close>

definition pollJob ::
    "env \<Rightarrow> sys \<Rightarrow> job \<Rightarrow> addr \<Rightarrow> gameData \<Rightarrow> summary \<Rightarrow> sys \<times> unit completion" where
  "pollJob e s j a gd gameSummary =
     (case (if teamNames (heap s a) = None
            then (case (homeTeam gameSummary, awayTeam gameSummary) of
                    (Some h, Some g) \<Rightarrow>
                      Some (updTicker a (\<lambda>t. t\<lparr>teamNames := Some \<lparr>home = h, guest = g\<rparr>\<rparr>) s)
                  | _ \<Rightarrow> None)
            else Some s) of
        None \<Rightarrow> (s, Throws)
      | Some s1 \<Rightarrow>
          (let newUpdatedAt = updatedAt gameSummary
           in if truthy newUpdatedAt \<and> newUpdatedAt \<noteq> lastUpdatedAt (heap s1 a)
              then
                (case processEvents e (updTicker a (\<lambda>t. t\<lparr>lastUpdatedAt := newUpdatedAt\<rparr>) s1)
                        gd a (job_chatId j) of
                   (s3, Returns new) \<Rightarrow> (if new then saveSeenTickers s3 else s3, Returns ())
                 | (s3, Throws) \<Rightarrow> (s3, Throws))
              else (s1, Returns ())))"

text \<open>The body of the \<^verbatim>\<open>try\<close> from the point where the fetch has settled.\<close>

definition workerBody ::
    "env \<Rightarrow> sys \<Rightarrow> job \<Rightarrow> addr \<Rightarrow> fetchResult \<Rightarrow> sys \<times> unit completion" where
  "workerBody e s j a res =
     (case res of
        FetchError \<Rightarrow> (s, Throws)
      | Response None \<Rightarrow> (s, Throws)
      | Response (Some gd) \<Rightarrow>
          (case gd_summary gd of
             None \<Rightarrow> (s, Throws)
           | Some gameSummary \<Rightarrow>
               if gd_events gd = NoEvents then (s, Throws)
               else if job_type j = Schedule then scheduleJob e s j a gameSummary
               else pollJob e s j a gd gameSummary))"

text \<open>
  The \<^verbatim>\<open>catch\<close> block. The notice is awaited with no \<^verbatim>\<open>try\<close> of its own: when the
  messenger rejects, the statements after it do not run.
\<close>

definition workerCatch :: "env \<Rightarrow> sys \<Rightarrow> job \<Rightarrow> sys" where
  "workerCatch e s j =
     (if job_type j = Schedule then
        (let (s1, ok) = sendMessage e s (job_chatId j) failureNotice
         in if \<not> ok then s1
            else removeSchedule
                   (s1\<lparr>activeTickers := mapDelete (activeTickers s1) (job_chatId j)\<rparr>)
                   (job_chatId j))
      else s)"

text \<open>\<^verbatim>\<open>try { body } catch { ... } finally { activeWorkers-- }\<close>\<close>

definition workerFinish :: "env \<Rightarrow> job \<Rightarrow> sys \<times> unit completion \<Rightarrow> sys" where
  "workerFinish e j r =
     (let s1 = (case r of (s, Returns _) \<Rightarrow> s | (s, Throws) \<Rightarrow> workerCatch e s j)
      in s1\<lparr>activeWorkers := activeWorkers s1 - 1\<rparr>)"

text \<open>
  \<^verbatim>\<open>runWorker(job)\<close> up to its first \<^verbatim>\<open>await\<close>. A stale job is dropped at once. A
  worker whose \<^verbatim>\<open>buildDataUrl\<close> throws (\<^verbatim>\<open>new URL\<close> rejects the address) goes
  through \<^verbatim>\<open>catch\<close> and \<^verbatim>\<open>finally\<close>. Every other worker is suspended in the fetch
  and joins \<open>inflight\<close> with the ticker object it has read.
\<close>

definition urlOk :: "env \<Rightarrow> string option \<Rightarrow> bool" where
  "urlOk e u = (case u of None \<Rightarrow> False | Some x \<Rightarrow> validUrl e x)"

definition runWorker :: "env \<Rightarrow> sys \<Rightarrow> job \<Rightarrow> sys" where
  "runWorker e s j =
     (case mapGet (activeTickers s) (job_chatId j) of
        None \<Rightarrow> s\<lparr>activeWorkers := activeWorkers s - 1\<rparr>
      | Some a \<Rightarrow>
          if (job_type j = Poll \<and> \<not> isPolling (heap s a)) \<or>
             (job_type j = Schedule \<and> \<not> isScheduling (heap s a))
          then s\<lparr>activeWorkers := activeWorkers s - 1\<rparr>
          else if \<not> urlOk e (job_meetingPageUrl j) then workerFinish e j (s, Throws)
          else s\<lparr>inflight := inflight s @ [(j, a)]\<rparr>)"

text \<open>
  The rest of \<^verbatim>\<open>runWorker\<close> for the \<open>i\<close>-th suspended worker, once its fetch has
  settled with \<open>res\<close>. It is run to its end in one step.
\<close>

definition resumeWorker :: "env \<Rightarrow> sys \<Rightarrow> nat \<Rightarrow> fetchResult \<Rightarrow> sys" where
  "resumeWorker e s i res =
     (case at (inflight s) i of
        None \<Rightarrow> s
      | Some (j, a) \<Rightarrow>
          workerFinish e j
            (workerBody e (s\<lparr>inflight := take i (inflight s) @ drop (Suc i) (inflight s)\<rparr>)
               j a res))"

definition dispatcherLoop :: "env \<Rightarrow> sys \<Rightarrow> sys" where
  "dispatcherLoop e s =
     (if length (jobQueue s) > 0 \<and> activeWorkers s < MAX_WORKERS
      then runWorker e
             (s\<lparr>activeWorkers := activeWorkers s + 1, jobQueue := tl (jobQueue s)\<rparr>)
             (hd (jobQueue s))
      else s)"

subsection \<open>Timer callbacks\<close>

definition runCallback :: "env \<Rightarrow> sys \<Rightarrow> timerAction \<Rightarrow> sys" where
  "runCallback e s act =
     (case act of
        CallBeginActualPolling c \<Rightarrow> beginActualPolling e s c
      | CallSendRecapMessage c \<Rightarrow> fst (sendRecapMessage e s c)
      | SendStats c statsMessage \<Rightarrow> fst (sendMessage e s c statsMessage)
      | SendSummary c summary \<Rightarrow> if summary \<noteq> [] then fst (sendMessage e s c summary) else s
      | SendFinalMessage c \<Rightarrow> fst (sendMessage e s c finalMessage)
      | Cleanup c \<Rightarrow>
          if mapGet (activeTickers s) c \<noteq> None
          then saveSeenTickers (s\<lparr>activeTickers := mapDelete (activeTickers s) c\<rparr>)
          else s)"

text \<open>The timer with handle \<open>h\<close> fires; a timeout is spent, an interval stays armed.\<close>

definition fireTimer :: "env \<Rightarrow> sys \<Rightarrow> nat \<Rightarrow> sys" where
  "fireTimer e s h =
     (case find (\<lambda>t. tm_handle t = h) (timers s) of
        None \<Rightarrow> s
      | Some t \<Rightarrow>
          runCallback e (if tm_interval t then s else clearTimer s (Some h)) (tm_action t))"


section \<open>app.js\<close>

text \<open>
  What the message listener reads of an incoming message: its text, and of its chat
  whether it is a group, the serialized id and the name. A rejected \<^verbatim>\<open>msg.reply\<close> ends
  the listener where it stands.
\<close>

record message =
  msg_body :: string
  msg_isGroup :: bool
  msg_chatId :: chatId
  msg_chatName :: string

text \<open>The branch \<^verbatim>\<open>command === '!start1' && args.length >= 2\<close>\<close>

definition cmdStart ::
    "env \<Rightarrow> sys \<Rightarrow> chatId \<Rightarrow> string \<Rightarrow> string \<Rightarrow> string option \<Rightarrow> sys" where
  "cmdStart e s c g url arg2 =
     (if (case mapGet (activeTickers s) c of
            Some a \<Rightarrow> isPolling (heap s a) \<or> isScheduled (heap s a)
          | None \<Rightarrow> False)
      then fst (reply e s c alreadyActiveNotice)
      else
        (let m = (if truthy arg2 \<and> toLowerCase (interp arg2) = ''recap'' then Recap else Live)
         in case queueTickerScheduling e s url c g m of
              (s1, Returns _) \<Rightarrow> s1
            | (s1, Throws) \<Rightarrow>
                (let (s2, ok) = reply e s1 c criticalErrorNotice
                 in if ok then s2\<lparr>activeTickers := mapDelete (activeTickers s2) c\<rparr> else s2)))"

text \<open>The branch \<^verbatim>\<open>command === '!stop1'\<close>\<close>

definition cmdStop :: "env \<Rightarrow> sys \<Rightarrow> chatId \<Rightarrow> sys" where
  "cmdStop e s c =
     (case mapGet (activeTickers s) c of
        None \<Rightarrow> fst (reply e s c notRunningNotice)
      | Some a \<Rightarrow>
          (let wasScheduled = (isScheduled (heap s a) \<and> scheduleTimeout (heap s a) \<noteq> None);
               s1 = (if wasScheduled
                     then removeSchedule
                            (updTicker a (\<lambda>t. t\<lparr>isScheduled := False\<rparr>)
                               (clearTimer s (scheduleTimeout (heap s a)))) c
                     else s);
               wasPolling = isPolling (heap s1 a);
               s2 = (if wasPolling
                     then clearTimer (updTicker a (\<lambda>t. t\<lparr>isPolling := False\<rparr>) s1)
                            (recapIntervalId (heap s1 a))
                     else s1);
               s3 = s2\<lparr>jobQueue := removeFirstJob c (jobQueue s2)\<rparr>
           in if wasScheduled \<or> wasPolling
              then fst (sendMessage e s3 c stoppedNotice)
              else fst (reply e s3 c notRunningNotice)))"

text \<open>The branch \<^verbatim>\<open>command === '!reset1'\<close>\<close>

definition cmdReset :: "env \<Rightarrow> sys \<Rightarrow> chatId \<Rightarrow> sys" where
  "cmdReset e s c =
     (let s1 = (case mapGet (activeTickers s) c of
                  None \<Rightarrow> s
                | Some a \<Rightarrow>
                    (let s' = clearTimer (clearTimer s (scheduleTimeout (heap s a)))
                                (recapIntervalId (heap s a));
                         s'' = updTicker a (\<lambda>t. t\<lparr>isPolling := False, isScheduled := False\<rparr>) s'
                     in s''\<lparr>jobQueue := removeFirstJob c (jobQueue s'')\<rparr>));
          s2 = saveSeenTickers (s1\<lparr>activeTickers := mapDelete (activeTickers s1) c\<rparr>);
          s3 = removeSchedule s2 c
      in fst (reply e s3 c resetNotice))"

text \<open>\<^verbatim>\<open>client.on('message', ...)\<close>\<close>

definition onMessage :: "env \<Rightarrow> sys \<Rightarrow> message \<Rightarrow> sys" where
  "onMessage e s msg =
     (if \<not> (msg_body msg \<noteq> [] \<and> hd (msg_body msg) = CHR ''!'') then s
      else if \<not> msg_isGroup msg
      then fst (reply e s (msg_chatId msg) groupsOnlyNotice)
      else
        (let c = msg_chatId msg;
             args = jsSplit CHR '' '' (msg_body msg);
             command = toLowerCase (hd args)
         in if command = ''!start1'' \<and> length args \<ge> 2
            then cmdStart e s c (msg_chatName msg) (args ! 1) (at args 2)
            else if command = ''!stop1'' then cmdStop e s c
            else if command = ''!reset1'' then cmdReset e s c
            else if command = ''!start1''
            then fst (reply e s c usageNotice)
            else s))"

text \<open>\<^verbatim>\<open>client.on('disconnected', ...)\<close>\<close>

definition onDisconnected :: "sys \<Rightarrow> sys" where
  "onDisconnected s =
     saveSeenTickers
       (foldl (\<lambda>s' a. clearTimer
                         (clearTimer
                            (updTicker a (\<lambda>t. t\<lparr>isPolling := False, isScheduled := False\<rparr>) s')
                            (scheduleTimeout (heap s' a)))
                         (recapIntervalId (heap s' a)))
          s (map snd (activeTickers s)))"

section \<open>Runs of the system\<close>

text \<open>
  The event loop runs one callback at a time: a message, a tick of either periodic task
  (\<^verbatim>\<open>setInterval(masterScheduler, 20000)\<close>, \<^verbatim>\<open>setInterval(dispatcherLoop, 500)\<close>), a
  fetch that settles, a timer that fires, a disconnect. Time passes between them. When
  a timer fires is left open: every pending timer may fire at any moment.
\<close>

inductive reachable :: "env \<Rightarrow> sys \<Rightarrow> bool" for e :: env where
  start: "reachable e initSys"
| message: "reachable e s \<Longrightarrow> reachable e (onMessage e s msg)"
| scheduler: "reachable e s \<Longrightarrow> reachable e (masterScheduler s)"
| dispatcher: "reachable e s \<Longrightarrow> reachable e (dispatcherLoop e s)"
| fetched: "reachable e s \<Longrightarrow> reachable e (resumeWorker e s i res)"
| timer: "reachable e s \<Longrightarrow> reachable e (fireTimer e s h)"
| disconnected: "reachable e s \<Longrightarrow> reachable e (onDisconnected s)"
| time: "reachable e s \<Longrightarrow> 0 \<le> d \<Longrightarrow> reachable e (s\<lparr>clock := clock s + d\<rparr>)"

section \<open>Concrete runs\<close>

definition env0 :: env where
  "env0 = \<lparr>validUrl = (\<lambda>_. True), sendOk = (\<lambda>_. True),
            extractGameStats = (\<lambda>_ _. Some ''stats''),
            generateGameSummary = (\<lambda>_ _ _ _. Some ''summary''),
            toLocaleTimeString = (\<lambda>_. ''18:55''),
            toLocaleDateString = (\<lambda>_. ''01.11.2026''),
            toISOString = (\<lambda>_. ''2026-11-01T17:55:00.000Z'')\<rparr>"

definition startA :: message where
  "startA = \<lparr>msg_body = ''!start1 https://h.net/a'', msg_isGroup = True,
             msg_chatId = ''A'', msg_chatName = ''Fans A''\<rparr>"

definition startB :: message where
  "startB = \<lparr>msg_body = ''!Start1 https://h.net/b recap'', msg_isGroup = True,
             msg_chatId = ''B'', msg_chatName = ''Fans B''\<rparr>"

definition kickoff :: gameData where
  "kickoff = \<lparr>gd_summary = Some \<lparr>startsAt = Some 0, homeTeam = Some ''H'', awayTeam = Some ''G'',
                                   updatedAt = Some ''v0''\<rparr>,
               gd_events = EventList [], gd_lineup = []\<rparr>"

definition jobA :: job where
  "jobA = \<lparr>job_type = Schedule, job_chatId = ''A'', job_meetingPageUrl = Some ''https://h.net/a'',
           job_groupName = Some ''Fans A'', job_mode = Some Live, job_tickerState = None,
           jobId = 0\<rparr>"

definition pollA :: job where
  "pollA = \<lparr>job_type = Poll, job_chatId = ''A'', job_meetingPageUrl = Some ''https://h.net/a'',
            job_groupName = None, job_mode = None, job_tickerState = Some 0, jobId = 0\<rparr>"

definition jobB :: job where
  "jobB = \<lparr>job_type = Schedule, job_chatId = ''B'', job_meetingPageUrl = Some ''https://h.net/b'',
           job_groupName = Some ''Fans B'', job_mode = Some Recap, job_tickerState = None,
           jobId = 0\<rparr>"

definition pollB :: job where
  "pollB = \<lparr>job_type = Poll, job_chatId = ''B'', job_meetingPageUrl = Some ''https://h.net/b'',
            job_groupName = None, job_mode = None, job_tickerState = Some 0, jobId = 0\<rparr>"

definition namesHG :: teamNames where
  "namesHG = \<lparr>home = ''H'', guest = ''G''\<rparr>"

text \<open>The ticker of chat A while it is being scheduled, and while it polls.\<close>

definition tickerA0 :: tickerState where
  "tickerA0 = newTickerState\<lparr>isScheduling := True, meetingPageUrl := Some ''https://h.net/a'',
                             groupName := Some ''Fans A'', mode := Some Live\<rparr>"

definition tickerA :: tickerState where
  "tickerA = tickerA0\<lparr>isPolling := True, isScheduling := False, teamNames := Some namesHG,
                       lastUpdatedAt := Some ''v0''\<rparr>"

definition tickerB0 :: tickerState where
  "tickerB0 = newTickerState\<lparr>isScheduling := True, meetingPageUrl := Some ''https://h.net/b'',
                             groupName := Some ''Fans B'', mode := Some Recap\<rparr>"

definition tickerB :: tickerState where
  "tickerB = tickerB0\<lparr>isPolling := True, isScheduling := False, teamNames := Some namesHG,
                       lastUpdatedAt := Some ''v0'', recapIntervalId := Some 0\<rparr>"

definition sA :: sys where "sA = onMessage env0 initSys startA"
definition sAB :: sys where "sAB = onMessage env0 sA startB"
definition sA1 :: sys where "sA1 = dispatcherLoop env0 sA"
definition sA2 :: sys where "sA2 = resumeWorker env0 sA1 0 (Response (Some kickoff))"
definition sA3 :: sys where "sA3 = dispatcherLoop env0 sA2"
definition sA4 :: sys where "sA4 = masterScheduler sA3"


text \<open>
  Chat A sends \<^verbatim>\<open>!start1\<close> again after chat B: three jobs are queued. Two ticks use up
  the budget and leave the third job queued.
\<close>

definition sD0 :: sys where "sD0 = onMessage env0 sAB startA"
definition sD1 :: sys where "sD1 = dispatcherLoop env0 sD0"
definition sD2 :: sys where "sD2 = dispatcherLoop env0 sD1"

text \<open>A snapshot without a version marker, and a messenger that only delivers once.\<close>

definition goal1 :: event where
  "goal1 = \<lparr>ev_id = ''e1'', ev_type = ''Goal'', ev_time = Some ''01:10'', ev_score = Some ''1-0'',
            ev_team = Some ''Home'', ev_message = Some ''Tor durch 7'', ev_timestamp = 70\<rparr>"

definition unversioned :: gameData where
  "unversioned = \<lparr>gd_summary = Some \<lparr>startsAt = Some 0, homeTeam = Some ''H'',
                                       awayTeam = Some ''G'', updatedAt = None\<rparr>,
                   gd_events = EventList [goal1], gd_lineup = []\<rparr>"

definition env1 :: env where
  "env1 = env0\<lparr>sendOk := (\<lambda>n. n = 0)\<rparr>"

definition sF :: sys where
  "sF = dispatcherLoop env1 (onMessage env1 initSys startA)"


section \<open>Notions used by the properties\<close>

text \<open>Two states with the same budget counter and the same suspended workers.\<close>

definition sameWorkers :: "sys \<Rightarrow> sys \<Rightarrow> bool" where
  "sameWorkers s s' = (activeWorkers s' = activeWorkers s \<and> inflight s' = inflight s)"

text \<open>
  The ticker object a worker for job \<open>j\<close> reads, unless the job is stale: the chat has
  an entry, and its ticker is in the phase the job is for.
\<close>

definition claimed :: "sys \<Rightarrow> job \<Rightarrow> addr option" where
  "claimed s j =
     (case mapGet (activeTickers s) (job_chatId j) of
        None \<Rightarrow> None
      | Some a \<Rightarrow>
          if (job_type j = Poll \<and> \<not> isPolling (heap s a)) \<or>
             (job_type j = Schedule \<and> \<not> isScheduling (heap s a))
          then None else Some a)"

text \<open>No two poll jobs of a queue are for the same chat.\<close>

definition pollUnique :: "job list \<Rightarrow> bool" where
  "pollUnique q = distinct (map job_chatId (filter (\<lambda>j. job_type j = Poll) q))"

text \<open>The poll jobs for a chat that are queued or held by a suspended worker.\<close>

definition outstandingPolls :: "sys \<Rightarrow> chatId \<Rightarrow> job list" where
  "outstandingPolls s c =
     filter (\<lambda>j. job_type j = Poll \<and> job_chatId j = c) (jobQueue s @ map fst (inflight s))"


text \<open>Every ticker object with buffered recap events has its team names.\<close>

definition buffersNamed :: "sys \<Rightarrow> bool" where
  "buffersNamed s = (\<forall>a. recapEvents (heap s a) \<noteq> [] \<longrightarrow> teamNames (heap s a) \<noteq> None)"

text \<open>
  From \<open>s\<close> to \<open>s'\<close> no object loses its team names, and only the objects in \<open>A\<close> may
  get a buffer that was empty filled.
\<close>

definition recapQuiet :: "addr set \<Rightarrow> sys \<Rightarrow> sys \<Rightarrow> bool" where
  "recapQuiet A s s' =
     (\<forall>b. (recapEvents (heap s' b) \<noteq> [] \<longrightarrow> recapEvents (heap s b) \<noteq> [] \<or> b \<in> A) \<and>
          (teamNames (heap s b) \<noteq> None \<longrightarrow> teamNames (heap s' b) \<noteq> None))"

text \<open>
  A recap ticker for chat B with two events in its buffer, on a messenger that delivers
  the first three messages only.
\<close>

definition goal2 :: event where
  "goal2 = \<lparr>ev_id = ''e2'', ev_type = ''Goal'', ev_time = Some ''02:30'', ev_score = Some ''1-1'',
            ev_team = Some ''Away'', ev_message = Some ''Tor durch 9'', ev_timestamp = 150\<rparr>"

definition twoGoals :: gameData where
  "twoGoals = \<lparr>gd_summary = Some \<lparr>startsAt = Some 0, homeTeam = Some ''H'', awayTeam = Some ''G'',
                                    updatedAt = Some ''v1''\<rparr>,
                gd_events = EventList [goal2, goal1], gd_lineup = []\<rparr>"

definition env3 :: env where
  "env3 = env0\<lparr>sendOk := (\<lambda>n. n < 3)\<rparr>"

definition sC :: sys where "sC = onMessage env3 initSys startB"
definition sC1 :: sys where "sC1 = dispatcherLoop env3 sC"
definition sC2 :: sys where "sC2 = resumeWorker env3 sC1 0 (Response (Some kickoff))"
definition sC3 :: sys where "sC3 = dispatcherLoop env3 sC2"
definition sC4 :: sys where "sC4 = resumeWorker env3 sC3 0 (Response (Some twoGoals))"


section \<open>Notions for the event processor\<close>


text \<open>The messages handed to the messenger, in order: chat and text.\<close>

fun sentTexts :: "effect list \<Rightarrow> (chatId \<times> string) list" where
  "sentTexts [] = []"
| "sentTexts (Sent c txt ok # fx) = (c, txt) # sentTexts fx"
| "sentTexts (Replied c txt ok # fx) = sentTexts fx"
| "sentTexts (SavedSeen # fx) = sentTexts fx"
| "sentTexts (SavedSchedule # fx) = sentTexts fx"

text \<open>
  As the specification words it: of a chronological list, the events whose id has not
  been seen, each id once.
\<close>

fun unseenChrono :: "string list \<Rightarrow> event list \<Rightarrow> event list" where
  "unseenChrono sn [] = []"
| "unseenChrono sn (ev # evs) =
     (if ev_id ev \<in> set sn then unseenChrono sn evs
      else ev # unseenChrono (sn @ [ev_id ev]) evs)"

text \<open>
  Of these, the events that get a live message: all up to and including the game end,
  and none from the first event on whose text cannot be built.
\<close>

fun liveUpTo :: "(event \<Rightarrow> string option) \<Rightarrow> event list \<Rightarrow> event list" where
  "liveUpTo fmt [] = []"
| "liveUpTo fmt (ev # evs) =
     (case fmt ev of
        None \<Rightarrow> []
      | Some m \<Rightarrow> ev # (if isGameEnd ev then [] else liveUpTo fmt evs))"

section \<open>A run through the end of a game\<close>

text \<open>
  Chat A sends \<^verbatim>\<open>!start1\<close> three times before the first schedule job is taken. The
  first job finds the game in the future and arms the schedule timer; the second is
  fetched after the start time has passed and starts polling; the third stays queued.
  The poll then brings the final whistle. Later the schedule timer fires, and a further
  poll brings the same final whistle again.
\<close>

definition later :: gameData where
  "later = \<lparr>gd_summary = Some \<lparr>startsAt = Some 1000000, homeTeam = Some ''H'',
                                 awayTeam = Some ''G'', updatedAt = Some ''v0''\<rparr>,
             gd_events = EventList [], gd_lineup = []\<rparr>"

definition fullTime :: event where
  "fullTime = \<lparr>ev_id = ''e9'', ev_type = ''StopPeriod'', ev_time = Some ''60:00'',
               ev_score = Some ''30-28'', ev_team = None, ev_message = None,
               ev_timestamp = 3600\<rparr>"

definition gdEnd :: gameData where
  "gdEnd = \<lparr>gd_summary = Some \<lparr>startsAt = Some 1000000, homeTeam = Some ''H'',
                                 awayTeam = Some ''G'', updatedAt = Some ''v1''\<rparr>,
             gd_events = EventList [fullTime], gd_lineup = ''L''\<rparr>"

definition gdEnd2 :: gameData where
  "gdEnd2 = \<lparr>gd_summary = Some \<lparr>startsAt = Some 1000000, homeTeam = Some ''H'',
                                  awayTeam = Some ''G'', updatedAt = Some ''v2''\<rparr>,
              gd_events = EventList [fullTime], gd_lineup = ''L''\<rparr>"

text \<open>The same final whistle without a score, as a feed may send it.\<close>

definition blankWhistle :: event where
  "blankWhistle = \<lparr>ev_id = ''e8'', ev_type = ''StopPeriod'', ev_time = Some ''60:00'',
                   ev_score = None, ev_team = None, ev_message = None, ev_timestamp = 3600\<rparr>"

definition gdBlank :: gameData where
  "gdBlank = \<lparr>gd_summary = Some \<lparr>startsAt = Some 1000000, homeTeam = Some ''H'',
                                   awayTeam = Some ''G'', updatedAt = Some ''v1''\<rparr>,
               gd_events = EventList [blankWhistle], gd_lineup = ''L''\<rparr>"

text \<open>In this run the summary generator rejects.\<close>

definition envE :: env where
  "envE = env0\<lparr>generateGameSummary := (\<lambda>_ _ _ _. None)\<rparr>"

definition pollE :: job where
  "pollE = pollA\<lparr>jobId := 800000\<rparr>"

definition scheduleTimerA :: timer where
  "scheduleTimerA = \<lparr>tm_handle = 0, tm_delay = 700000, tm_interval = False,
                     tm_action = CallBeginActualPolling ''A''\<rparr>"

definition sE1 :: sys where "sE1 = onMessage envE initSys startA"
definition sE2 :: sys where "sE2 = onMessage envE sE1 startA"
definition sE3 :: sys where "sE3 = onMessage envE sE2 startA"
definition sE4 :: sys where "sE4 = dispatcherLoop envE sE3"
definition sE5 :: sys where "sE5 = resumeWorker envE sE4 0 (Response (Some later))"
definition sE6 :: sys where "sE6 = dispatcherLoop envE sE5"
definition sE7 :: sys where "sE7 = sE6\<lparr>clock := clock sE6 + 800000\<rparr>"
definition sE8 :: sys where "sE8 = resumeWorker envE sE7 0 (Response (Some later))"
definition sE9 :: sys where "sE9 = dispatcherLoop envE sE8"
definition sE10 :: sys where "sE10 = masterScheduler sE9"
definition sE11 :: sys where "sE11 = resumeWorker envE sE10 0 (Response (Some gdEnd))"
definition sE12 :: sys where "sE12 = fireTimer envE sE11 0"
definition sE13 :: sys where "sE13 = dispatcherLoop envE sE12"
definition sE14 :: sys where "sE14 = resumeWorker envE sE13 0 (Response (Some gdEnd2))"

section \<open>The timers armed at the end of a game\<close>

text \<open>Timeouts with consecutive handles from \<open>n\<close> on.\<close>

fun numbered :: "nat \<Rightarrow> (int \<times> timerAction) list \<Rightarrow> timer list" where
  "numbered n [] = []"
| "numbered n (da # das) =
     \<lparr>tm_handle = n, tm_delay = fst da, tm_interval = False, tm_action = snd da\<rparr>
       # numbered (Suc n) das"

text \<open>
  The statistics after 1 s and the summary after 2 s, each if its collaborator returns;
  the closing message after 4 s; the removal from the registry after one hour.
\<close>

definition endTimers :: "env \<Rightarrow> gameData \<Rightarrow> event list \<Rightarrow> tickerState \<Rightarrow> chatId \<Rightarrow> nat \<Rightarrow> timer list" where
  "endTimers e gd evs t c n =
     numbered n
       ((case extractGameStats e (gd_lineup gd) (teamNames t) of
           Some statsMessage \<Rightarrow> [(1000, SendStats c statsMessage)]
         | None \<Rightarrow> [])
        @ (case generateGameSummary e evs (teamNames t) (groupName t) (gd_lineup gd) of
             Some summary \<Rightarrow> [(2000, SendSummary c summary)]
           | None \<Rightarrow> [])
        @ [(4000, SendFinalMessage c), (3600000, Cleanup c)])"

section \<open>The moves of a run and the seen ids\<close>


text \<open>
  From \<open>s\<close> to \<open>s'\<close> no ticker object is created, no object loses a seen id, and the
  registry is the same.
\<close>

definition idsQuiet :: "sys \<Rightarrow> sys \<Rightarrow> bool" where
  "idsQuiet s s' =
     (nextAddr s' = nextAddr s \<and> activeTickers s' = activeTickers s \<and>
      (\<forall>b. set (seen (heap s b)) \<subseteq> set (seen (heap s' b))))"

text \<open>The same, but entries of the registry may have been removed.\<close>

definition idsKept :: "sys \<Rightarrow> sys \<Rightarrow> bool" where
  "idsKept s s' =
     (nextAddr s' = nextAddr s \<and>
      (\<forall>c. mapGet (activeTickers s') c = mapGet (activeTickers s) c \<or>
           mapGet (activeTickers s') c = None) \<and>
      (\<forall>b. set (seen (heap s b)) \<subseteq> set (seen (heap s' b))))"







section \<open>What the primitive operations leave alone\<close>

lemma updTicker_keeps:
  "nextAddr (updTicker a f s) = nextAddr s"
  "activeTickers (updTicker a f s) = activeTickers s"
  "jobQueue (updTicker a f s) = jobQueue s"
  "lastPolledIndex (updTicker a f s) = lastPolledIndex s"
  "activeWorkers (updTicker a f s) = activeWorkers s"
  "inflight (updTicker a f s) = inflight s"
  "timers (updTicker a f s) = timers s"
  "nextTimer (updTicker a f s) = nextTimer s"
  "scheduleFile (updTicker a f s) = scheduleFile s"
  "seenFile (updTicker a f s) = seenFile s"
  "outbox (updTicker a f s) = outbox s"
  "sends (updTicker a f s) = sends s"
  "clock (updTicker a f s) = clock s"
  by (simp_all add: updTicker_def split: option.splits)

lemma setTimer_keeps:
  "heap (setTimer s d rep act) = heap s"
  "nextAddr (setTimer s d rep act) = nextAddr s"
  "activeTickers (setTimer s d rep act) = activeTickers s"
  "jobQueue (setTimer s d rep act) = jobQueue s"
  "lastPolledIndex (setTimer s d rep act) = lastPolledIndex s"
  "activeWorkers (setTimer s d rep act) = activeWorkers s"
  "inflight (setTimer s d rep act) = inflight s"
  "scheduleFile (setTimer s d rep act) = scheduleFile s"
  "seenFile (setTimer s d rep act) = seenFile s"
  "outbox (setTimer s d rep act) = outbox s"
  "sends (setTimer s d rep act) = sends s"
  "clock (setTimer s d rep act) = clock s"
  by (simp_all add: setTimer_def split: option.splits)

lemma clearTimer_keeps:
  "heap (clearTimer s h) = heap s"
  "nextAddr (clearTimer s h) = nextAddr s"
  "activeTickers (clearTimer s h) = activeTickers s"
  "jobQueue (clearTimer s h) = jobQueue s"
  "lastPolledIndex (clearTimer s h) = lastPolledIndex s"
  "activeWorkers (clearTimer s h) = activeWorkers s"
  "inflight (clearTimer s h) = inflight s"
  "nextTimer (clearTimer s h) = nextTimer s"
  "scheduleFile (clearTimer s h) = scheduleFile s"
  "seenFile (clearTimer s h) = seenFile s"
  "outbox (clearTimer s h) = outbox s"
  "sends (clearTimer s h) = sends s"
  "clock (clearTimer s h) = clock s"
  by (simp_all add: clearTimer_def split: option.splits)

lemma saveSeenTickers_keeps:
  "heap (saveSeenTickers s) = heap s"
  "nextAddr (saveSeenTickers s) = nextAddr s"
  "activeTickers (saveSeenTickers s) = activeTickers s"
  "jobQueue (saveSeenTickers s) = jobQueue s"
  "lastPolledIndex (saveSeenTickers s) = lastPolledIndex s"
  "activeWorkers (saveSeenTickers s) = activeWorkers s"
  "inflight (saveSeenTickers s) = inflight s"
  "timers (saveSeenTickers s) = timers s"
  "nextTimer (saveSeenTickers s) = nextTimer s"
  "scheduleFile (saveSeenTickers s) = scheduleFile s"
  "sends (saveSeenTickers s) = sends s"
  "clock (saveSeenTickers s) = clock s"
  by (simp_all add: saveSeenTickers_def split: option.splits)

lemma removeSchedule_keeps:
  "heap (removeSchedule s c) = heap s"
  "nextAddr (removeSchedule s c) = nextAddr s"
  "activeTickers (removeSchedule s c) = activeTickers s"
  "jobQueue (removeSchedule s c) = jobQueue s"
  "lastPolledIndex (removeSchedule s c) = lastPolledIndex s"
  "activeWorkers (removeSchedule s c) = activeWorkers s"
  "inflight (removeSchedule s c) = inflight s"
  "timers (removeSchedule s c) = timers s"
  "nextTimer (removeSchedule s c) = nextTimer s"
  "seenFile (removeSchedule s c) = seenFile s"
  "sends (removeSchedule s c) = sends s"
  "clock (removeSchedule s c) = clock s"
  by (simp_all add: removeSchedule_def split: option.splits)

lemma sendMessage_keeps:
  "heap (fst (sendMessage e s c txt)) = heap s"
  "nextAddr (fst (sendMessage e s c txt)) = nextAddr s"
  "activeTickers (fst (sendMessage e s c txt)) = activeTickers s"
  "jobQueue (fst (sendMessage e s c txt)) = jobQueue s"
  "lastPolledIndex (fst (sendMessage e s c txt)) = lastPolledIndex s"
  "activeWorkers (fst (sendMessage e s c txt)) = activeWorkers s"
  "inflight (fst (sendMessage e s c txt)) = inflight s"
  "timers (fst (sendMessage e s c txt)) = timers s"
  "nextTimer (fst (sendMessage e s c txt)) = nextTimer s"
  "scheduleFile (fst (sendMessage e s c txt)) = scheduleFile s"
  "seenFile (fst (sendMessage e s c txt)) = seenFile s"
  "clock (fst (sendMessage e s c txt)) = clock s"
  by (simp_all add: sendMessage_def split: option.splits)

lemma reply_keeps:
  "heap (fst (reply e s c txt)) = heap s"
  "nextAddr (fst (reply e s c txt)) = nextAddr s"
  "activeTickers (fst (reply e s c txt)) = activeTickers s"
  "jobQueue (fst (reply e s c txt)) = jobQueue s"
  "lastPolledIndex (fst (reply e s c txt)) = lastPolledIndex s"
  "activeWorkers (fst (reply e s c txt)) = activeWorkers s"
  "inflight (fst (reply e s c txt)) = inflight s"
  "timers (fst (reply e s c txt)) = timers s"
  "nextTimer (fst (reply e s c txt)) = nextTimer s"
  "scheduleFile (fst (reply e s c txt)) = scheduleFile s"
  "seenFile (fst (reply e s c txt)) = seenFile s"
  "clock (fst (reply e s c txt)) = clock s"
  by (simp_all add: reply_def split: option.splits)

lemma updTicker_heap: "heap (updTicker a f s) = (heap s)(a := f (heap s a))"
  by (simp add: updTicker_def)

lemma setTimer_timers:
  "timers (setTimer s d rep act) =
     timers s @ [\<lparr>tm_handle = nextTimer s, tm_delay = d, tm_interval = rep, tm_action = act\<rparr>]"
  "nextTimer (setTimer s d rep act) = nextTimer s + 1"
  by (simp_all add: setTimer_def)

lemma clearTimer_timers:
  "timers (clearTimer s h) =
     (case h of None \<Rightarrow> timers s | Some i \<Rightarrow> filter (\<lambda>t. tm_handle t \<noteq> i) (timers s))"
  by (simp add: clearTimer_def split: option.splits)

lemma sendMessage_outbox:
  "outbox (fst (sendMessage e s c txt)) = outbox s @ [Sent c txt (sendOk e (sends s))]"
  "sends (fst (sendMessage e s c txt)) = sends s + 1"
  "snd (sendMessage e s c txt) = sendOk e (sends s)"
  by (simp_all add: sendMessage_def)

lemma reply_outbox:
  "outbox (fst (reply e s c txt)) = outbox s @ [Replied c txt (sendOk e (sends s))]"
  "sends (fst (reply e s c txt)) = sends s + 1"
  "snd (reply e s c txt) = sendOk e (sends s)"
  by (simp_all add: reply_def)

lemma saveSeenTickers_files:
  "seenFile (saveSeenTickers s) = map (\<lambda>ca. (fst ca, seen (heap s (snd ca)))) (activeTickers s)"
  "outbox (saveSeenTickers s) = outbox s @ [SavedSeen]"
  by (simp_all add: saveSeenTickers_def)

lemma removeSchedule_file: "scheduleFile (removeSchedule s c) = (scheduleFile s)(c := None)"
  by (auto simp add: removeSchedule_def)

lemmas prim_keeps = updTicker_keeps setTimer_keeps clearTimer_keeps saveSeenTickers_keeps
  removeSchedule_keeps sendMessage_keeps reply_keeps updTicker_heap setTimer_timers
  sendMessage_outbox reply_outbox saveSeenTickers_files removeSchedule_file

lemmas prim_defs = updTicker_def setTimer_def clearTimer_def sendMessage_def reply_def
  saveSeenTickers_def removeSchedule_def

section \<open>Evaluating the concrete runs\<close>

lemmas data_defs = env0_def initSys_def newTickerState_def jobA_def pollA_def jobB_def pollB_def
  namesHG_def tickerA0_def tickerA_def tickerB0_def tickerB_def startA_def startB_def kickoff_def
  goal1_def goal2_def twoGoals_def

lemmas step_defs = onMessage_def cmdStart_def queueTickerScheduling_def
  mapGet_def mapSet_def mapDelete_def prim_defs Let_def toLowerCase_def at_def truthy_def
  interp_def dispatcherLoop_def runWorker_def resumeWorker_def
  workerFinish_def workerBody_def workerCatch_def scheduleJob_def startNow_def
  beginActualPolling_def hasPollJob_def urlOk_def MAX_WORKERS_def PRE_GAME_START_MINUTES_def
  masterScheduler_def jsRem_def

lemma sA_eq:
  "sA = \<lparr>heap = (\<lambda>_. newTickerState)(0 := tickerA0), nextAddr = 1, activeTickers = [(''A'', 0)],
          jobQueue = [jobA], lastPolledIndex = - 1, activeWorkers = 0, inflight = [],
          timers = [], nextTimer = 0, scheduleFile = Map.empty, seenFile = [],
          outbox = [Sent ''A'' (planningNotice ''Fans A'') True], sends = 1, clock = 0\<rparr>"
  by (simp add: sA_def data_defs step_defs)

lemma sAB_eq:
  "sAB = sA\<lparr>heap := (heap sA)(1 := tickerB0), nextAddr := 2,
             activeTickers := [(''A'', 0), (''B'', 1)], jobQueue := [jobA, jobB],
             outbox := outbox sA @ [Sent ''B'' (planningNotice ''Fans B'') True], sends := 2\<rparr>"
  by (simp add: sAB_def sA_eq data_defs step_defs)

lemma sA1_eq: "sA1 = sA\<lparr>jobQueue := [], activeWorkers := 1, inflight := [(jobA, 0)]\<rparr>"
  by (simp add: sA1_def sA_eq data_defs step_defs)

lemma sA2_eq:
  "sA2 = sA\<lparr>heap := (heap sA)(0 := tickerA), jobQueue := [pollA],
             outbox := outbox sA @ [Sent ''A'' (startMessage namesHG (Some Live)) True],
             sends := 2\<rparr>"
  by (simp add: sA2_def sA1_eq sA_eq data_defs step_defs)

lemma sA3_eq: "sA3 = sA2\<lparr>jobQueue := [], activeWorkers := 1, inflight := [(pollA, 0)]\<rparr>"
  by (simp add: sA3_def sA2_eq sA_eq data_defs step_defs)

lemma sA4_eq: "sA4 = sA3\<lparr>jobQueue := [pollA], lastPolledIndex := 0\<rparr>"
  by (simp add: sA4_def sA3_eq sA2_eq sA_eq data_defs step_defs)

lemma sA_reachable: "reachable env0 sA"
  unfolding sA_def by (intro reachable.intros)

lemma sAB_reachable: "reachable env0 sAB"
  unfolding sAB_def by (intro reachable.message sA_reachable)

lemma sA2_reachable: "reachable env0 sA2"
  unfolding sA2_def sA1_def by (intro reachable.intros sA_reachable)

lemma sA3_reachable: "reachable env0 sA3"
  unfolding sA3_def by (intro reachable.intros sA2_reachable)

lemma sAB_facts:
  "map job_chatId (jobQueue sAB) = [''A'', ''B'']" "activeWorkers sAB = 0" "inflight sAB = []"
  by (simp_all add: sAB_eq sA_eq data_defs)

lemma sA2_facts:
  "mapGet (activeTickers sA2) ''A'' = Some 0" "isPolling (heap sA2 0)"
  "map job_type (jobQueue sA2) = [Poll]" "activeTickers sA2 = [(''A'', 0)]"
  by (simp_all add: sA2_eq sA_eq data_defs mapGet_def)

lemma sA3_facts:
  "map (job_type \<circ> fst) (inflight sA3) = [Poll]" "map snd (inflight sA3) = [0]"
  "activeWorkers sA3 = 1" "jobQueue sA3 = []"
  by (simp_all add: sA3_eq sA2_eq sA_eq data_defs)

section \<open>The dispatcher\<close>

lemma workerCatch_jobQueue: "jobQueue (workerCatch e s j) = jobQueue s"
  by (simp add: workerCatch_def prim_defs Let_def split: prod.splits)

lemma runWorker_jobQueue: "jobQueue (runWorker e s j) = jobQueue s"
  by (simp add: runWorker_def workerFinish_def workerCatch_jobQueue Let_def split: option.splits)

section \<open>Creating a ticker\<close>

text \<open>
  Claim C7, as amended. A \<^verbatim>\<open>!start1\<close> for a chat whose ticker is polling or scheduled
  (\<^verbatim>\<open>isPolling || isScheduled\<close>) is rejected: the listener replies and changes nothing
  else; no state is created and no job is enqueued.
\<close>

theorem start_rejected_when_polling_or_scheduled:
  assumes "mapGet (activeTickers s) c = Some a"
    and "isPolling (heap s a) \<or> isScheduled (heap s a)"
  shows "cmdStart e s c g url arg2 =
           s\<lparr>outbox := outbox s @ [Replied c alreadyActiveNotice (sendOk e (sends s))],
             sends := sends s + 1\<rparr>"
  using assms by (simp add: cmdStart_def reply_def)

text \<open>The ticker of chat A is polling; a second \<^verbatim>\<open>!start1\<close> leaves queue and registry alone.\<close>

theorem start_rejected_when_polling_or_scheduled_witness:
  "mapGet (activeTickers sA2) ''A'' = Some 0 \<and>
   (isPolling (heap sA2 0) \<or> isScheduled (heap sA2 0)) \<and>
   jobQueue (cmdStart env0 sA2 ''A'' ''Fans A'' ''https://h.net/a'' None) = jobQueue sA2 \<and>
   activeTickers (cmdStart env0 sA2 ''A'' ''Fans A'' ''https://h.net/a'' None) = activeTickers sA2 \<and>
   heap (cmdStart env0 sA2 ''A'' ''Fans A'' ''https://h.net/a'' None) = heap sA2"
proof -
  have p: "isPolling (heap sA2 0) \<or> isScheduled (heap sA2 0)" by (simp add: sA2_facts)
  show ?thesis
    using start_rejected_when_polling_or_scheduled[OF sA2_facts(1) p, of env0 "''Fans A''"
        "''https://h.net/a''" None] sA2_facts(1) p
    by simp
qed

text \<open>
  Claim C7 as stated fails in the Scheduling phase: after a first \<^verbatim>\<open>!start1\<close> the ticker
  is being scheduled and its job is queued; a second \<^verbatim>\<open>!start1\<close> is accepted and
  enqueues a second schedule job.
\<close>

theorem start_while_scheduling_counterexample:
  "reachable env0 sA \<and> mapGet (activeTickers sA) ''A'' = Some 0 \<and> isScheduling (heap sA 0) \<and>
   map job_type (jobQueue sA) = [Schedule] \<and>
   map job_type (jobQueue (onMessage env0 sA startA)) = [Schedule, Schedule]"
  using sA_reachable by (simp add: sA_eq data_defs step_defs)

section \<open>A poll without a version marker\<close>

text \<open>
  Claim C10. A poll worker whose snapshot has a falsy \<^verbatim>\<open>summary.updatedAt\<close> does no event
  processing: no message, no write of the seen file, and in no ticker object a change of
  \<open>lastUpdatedAt\<close>, of the seen ids, of the recap buffer or of \<open>isPolling\<close>; queue, timers
  and registry stay as they are.
\<close>

theorem poll_without_version_marker:
  assumes "at (inflight s) i = Some (j, a)"
    and "job_type j = Poll"
    and "gd_summary gd = Some sm"
    and "\<not> truthy (updatedAt sm)"
  shows "outbox (resumeWorker e s i (Response (Some gd))) = outbox s \<and>
         seenFile (resumeWorker e s i (Response (Some gd))) = seenFile s \<and>
         jobQueue (resumeWorker e s i (Response (Some gd))) = jobQueue s \<and>
         timers (resumeWorker e s i (Response (Some gd))) = timers s \<and>
         activeTickers (resumeWorker e s i (Response (Some gd))) = activeTickers s \<and>
         (\<forall>b. lastUpdatedAt (heap (resumeWorker e s i (Response (Some gd))) b)
                 = lastUpdatedAt (heap s b) \<and>
              seen (heap (resumeWorker e s i (Response (Some gd))) b) = seen (heap s b) \<and>
              recapEvents (heap (resumeWorker e s i (Response (Some gd))) b)
                 = recapEvents (heap s b) \<and>
              isPolling (heap (resumeWorker e s i (Response (Some gd))) b)
                 = isPolling (heap s b))"
  using assms
  by (simp add: resumeWorker_def workerBody_def pollJob_def workerFinish_def workerCatch_def
      updTicker_def split: option.splits)

text \<open>
  The poll worker of chat A receives a snapshot with a new goal but no version marker:
  nothing is sent and the goal is not marked seen.
\<close>

theorem poll_without_version_marker_witness:
  "(\<exists>j. at (inflight sA3) 0 = Some (j, 0) \<and> job_type j = Poll) \<and>
   gd_summary unversioned \<noteq> None \<and> \<not> truthy (updatedAt (the (gd_summary unversioned))) \<and>
   outbox (resumeWorker env0 sA3 0 (Response (Some unversioned))) = outbox sA3 \<and>
   seen (heap (resumeWorker env0 sA3 0 (Response (Some unversioned))) 0) = seen (heap sA3 0)"
proof -
  obtain j where j: "inflight sA3 = [(j, 0)]" "job_type j = Poll"
    using sA3_facts(1,2) by (cases "inflight sA3") auto
  have a: "at (inflight sA3) 0 = Some (j, 0)" by (simp add: j at_def)
  have g: "gd_summary unversioned = Some (the (gd_summary unversioned))"
    by (simp add: unversioned_def)
  have u: "\<not> truthy (updatedAt (the (gd_summary unversioned)))"
    by (simp add: unversioned_def truthy_def)
  from poll_without_version_marker[OF a j(2) g u, of env0] a j(2) g u show ?thesis
    by auto
qed

section \<open>A schedule job whose fetch fails\<close>

lemma workerCatch_schedule_ok:
  assumes "job_type j = Schedule" and "sendOk e (sends s)"
  shows "mapGet (activeTickers (workerCatch e s j)) (job_chatId j) = None \<and>
         scheduleFile (workerCatch e s j) (job_chatId j) = None \<and>
         jobQueue (workerCatch e s j) = jobQueue s"
  using assms
  by (auto simp add: workerCatch_def sendMessage_def removeSchedule_def mapGet_def mapDelete_def
      map_of_eq_None_iff)

lemma workerCatch_poll: "job_type j = Poll \<Longrightarrow> workerCatch e s j = s"
  by (simp add: workerCatch_def)

lemma sF_eq: "sF = sA1"
  by (simp add: sF_def sA1_eq sA_eq env1_def data_defs step_defs)

text \<open>
  Claim C8, at the failing input: the fetch of the schedule job of chat A fails, and so
  does the delivery of the failure notice (the first message went out, no later one
  does). The notice is awaited inside \<^verbatim>\<open>catch\<close> without a \<^verbatim>\<open>try\<close> of its own, so the
  statements after it are skipped: the ticker stays in the registry, still marked as
  being scheduled, while the worker slot is released.
\<close>

theorem failed_schedule_keeps_ticker:
  "map (job_type \<circ> fst) (inflight sF) = [Schedule] \<and>
   mapGet (activeTickers (resumeWorker env1 sF 0 FetchError)) ''A'' = Some 0 \<and>
   isScheduling (heap (resumeWorker env1 sF 0 FetchError) 0) \<and>
   inflight (resumeWorker env1 sF 0 FetchError) = [] \<and>
   activeWorkers (resumeWorker env1 sF 0 FetchError) = 0 \<and>
   (\<exists>txt. last (outbox (resumeWorker env1 sF 0 FetchError)) = Sent ''A'' txt False)"
  by (simp add: sF_eq sA1_eq sA_eq env1_def data_defs step_defs)


section \<open>The budget counter\<close>

lemma sameWorkers_refl [simp]: "sameWorkers s s"
  by (simp add: sameWorkers_def)

lemma sameWorkers_trans: "sameWorkers s s1 \<Longrightarrow> sameWorkers s1 s2 \<Longrightarrow> sameWorkers s s2"
  by (simp add: sameWorkers_def)

lemma beginActualPolling_workers: "sameWorkers s (beginActualPolling e s c)"
  by (simp add: sameWorkers_def beginActualPolling_def prim_defs Let_def split: option.splits)

lemma sendRecapMessage_workers: "sendRecapMessage e s c = (s', r) \<Longrightarrow> sameWorkers s s'"
  by (auto simp add: sameWorkers_def sendRecapMessage_def prim_defs Let_def
      split: option.splits if_splits)

lemma gameEnd_workers: "sameWorkers s (gameEnd e gd evs a c s)"
  by (simp add: sameWorkers_def gameEnd_def prim_defs Let_def split: option.splits)

lemma loopBody_workers: "loopBody e gd evs a c ev s = (s', r) \<Longrightarrow> sameWorkers s s'"
  using gameEnd_workers[of _ e gd evs a c]
  by (auto simp add: loopBody_def sameWorkers_def prim_defs Let_def
      split: option.splits prod.splits completion.splits if_splits
      dest!: sendRecapMessage_workers)

lemma eventLoop_workers: "eventLoop e gd evs a c xs s n = (s', r) \<Longrightarrow> sameWorkers s s'"
proof (induction xs arbitrary: s n)
  case Nil
  then show ?case by simp
next
  case (Cons x xs)
  obtain s1 p where lb: "loopBody e gd evs a c x s = (s1, p)"
    by (cases "loopBody e gd evs a c x s")
  have w: "sameWorkers s s1" by (rule loopBody_workers[OF lb])
  show ?case
  proof (cases p)
    case Skipped
    with Cons.prems lb have "eventLoop e gd evs a c xs s1 n = (s', r)" by simp
    from sameWorkers_trans[OF w Cons.IH[OF this]] show ?thesis .
  next
    case Processed
    with Cons.prems lb have "eventLoop e gd evs a c xs s1 True = (s', r)" by simp
    from sameWorkers_trans[OF w Cons.IH[OF this]] show ?thesis .
  next
    case Ended
    with Cons.prems lb w show ?thesis by simp
  next
    case Raised
    with Cons.prems lb w show ?thesis by simp
  qed
qed

lemma processEvents_workers: "processEvents e s gd a c = (s', r) \<Longrightarrow> sameWorkers s s'"
  by (auto simp add: processEvents_def split: eventsField.splits dest: eventLoop_workers)

lemma scheduleLater_workers: "scheduleLater e s c a n st = (s', r) \<Longrightarrow> sameWorkers s s'"
  by (auto simp add: scheduleLater_def sameWorkers_def prim_defs Let_def split: if_splits)

lemma startNow_workers: "startNow e s c a n = (s', r) \<Longrightarrow> sameWorkers s s'"
  using beginActualPolling_workers[of _ e c]
  by (auto simp add: startNow_def sameWorkers_def prim_defs Let_def split: if_splits)

lemma scheduleJob_workers: "scheduleJob e s j a sm = (s', r) \<Longrightarrow> sameWorkers s s'"
  by (auto simp add: scheduleJob_def Let_def sameWorkers_def updTicker_def
      split: option.splits if_splits dest!: scheduleLater_workers startNow_workers)

lemma pollJob_workers: "pollJob e s j a gd sm = (s', r) \<Longrightarrow> sameWorkers s s'"
  by (auto simp add: pollJob_def Let_def sameWorkers_def prim_defs
      split: option.splits if_splits prod.splits completion.splits dest!: processEvents_workers)

lemma workerBody_workers: "workerBody e s j a res = (s', r) \<Longrightarrow> sameWorkers s s'"
  by (auto simp add: workerBody_def split: fetchResult.splits option.splits if_splits
      dest: scheduleJob_workers pollJob_workers)

lemma workerCatch_workers: "sameWorkers s (workerCatch e s j)"
  by (simp add: workerCatch_def sameWorkers_def prim_defs Let_def split: prod.splits)

lemma workerFinish_counter:
  "sameWorkers s s1 \<Longrightarrow>
     activeWorkers (workerFinish e j (s1, r)) = activeWorkers s - 1 \<and>
     inflight (workerFinish e j (s1, r)) = inflight s"
  using workerCatch_workers[of s1 e j]
  by (cases r) (simp_all add: workerFinish_def sameWorkers_def Let_def)

lemma resumeWorker_counter:
  assumes "i < length (inflight s)"
  shows "activeWorkers (resumeWorker e s i res) = activeWorkers s - 1"
    and "inflight (resumeWorker e s i res) = take i (inflight s) @ drop (Suc i) (inflight s)"
proof -
  obtain j a where ja: "inflight s ! i = (j, a)" by (cases "inflight s ! i")
  let ?s0 = "s\<lparr>inflight := take i (inflight s) @ drop (Suc i) (inflight s)\<rparr>"
  obtain s1 r where wb: "workerBody e ?s0 j a res = (s1, r)"
    by (cases "workerBody e ?s0 j a res")
  have rw: "resumeWorker e s i res = workerFinish e j (s1, r)"
    using assms ja wb by (simp add: resumeWorker_def at_def)
  from workerFinish_counter[OF workerBody_workers[OF wb], of e j r]
  show "activeWorkers (resumeWorker e s i res) = activeWorkers s - 1"
    and "inflight (resumeWorker e s i res) = take i (inflight s) @ drop (Suc i) (inflight s)"
    by (simp_all add: rw)
qed

lemma resumeWorker_idle: "\<not> i < length (inflight s) \<Longrightarrow> resumeWorker e s i res = s"
  by (simp add: resumeWorker_def at_def)

lemma runWorker_counter:
  "(activeWorkers (runWorker e s j) = activeWorkers s - 1 \<and> inflight (runWorker e s j) = inflight s)
   \<or> (\<exists>a. activeWorkers (runWorker e s j) = activeWorkers s \<and>
           inflight (runWorker e s j) = inflight s @ [(j, a)])"
  using workerFinish_counter[of s s e j Throws]
  by (auto simp add: runWorker_def split: option.splits)

lemma queueTickerScheduling_workers:
  "queueTickerScheduling e s url c g m = (s', r) \<Longrightarrow> sameWorkers s s'"
  by (auto simp add: queueTickerScheduling_def sameWorkers_def prim_defs Let_def
      split: if_splits option.splits)

lemma cmdStart_workers: "sameWorkers s (cmdStart e s c g url arg2)"
  by (auto simp add: cmdStart_def sameWorkers_def reply_def Let_def
      split: prod.splits completion.splits dest!: queueTickerScheduling_workers)

lemma cmdStop_workers: "sameWorkers s (cmdStop e s c)"
  by (simp add: cmdStop_def sameWorkers_def prim_defs Let_def split: option.splits)

lemma cmdReset_workers: "sameWorkers s (cmdReset e s c)"
  by (simp add: cmdReset_def sameWorkers_def prim_defs Let_def split: option.splits)

lemma onMessage_workers: "sameWorkers s (onMessage e s msg)"
  using cmdStart_workers cmdStop_workers cmdReset_workers
  by (simp add: onMessage_def Let_def reply_def) (simp add: sameWorkers_def)

lemma masterScheduler_workers: "sameWorkers s (masterScheduler s)"
  by (simp add: masterScheduler_def sameWorkers_def Let_def split: option.splits)

lemma runCallback_workers: "sameWorkers s (runCallback e s act)"
proof (cases act)
  case (CallBeginActualPolling c)
  then show ?thesis by (simp add: runCallback_def beginActualPolling_workers)
next
  case (CallSendRecapMessage c)
  then show ?thesis
    using sendRecapMessage_workers[of e s c] by (cases "sendRecapMessage e s c") (simp add: runCallback_def)
qed (simp_all add: runCallback_def sameWorkers_def prim_defs)

lemma fireTimer_workers: "sameWorkers s (fireTimer e s h)"
proof (cases "find (\<lambda>t. tm_handle t = h) (timers s)")
  case None
  then show ?thesis by (simp add: fireTimer_def)
next
  case (Some t)
  have "sameWorkers s (if tm_interval t then s else clearTimer s (Some h))"
    by (simp add: sameWorkers_def clearTimer_def)
  from sameWorkers_trans[OF this runCallback_workers] Some show ?thesis
    by (simp add: fireTimer_def)
qed

lemma disconnect_fold_workers:
  "sameWorkers s
     (foldl (\<lambda>s' a. clearTimer
                       (clearTimer
                          (updTicker a (\<lambda>t. t\<lparr>isPolling := False, isScheduled := False\<rparr>) s')
                          (scheduleTimeout (heap s' a)))
                       (recapIntervalId (heap s' a)))
        s as)"
proof (induction as arbitrary: s)
  case Nil
  then show ?case by simp
next
  case (Cons a as)
  let ?s1 = "clearTimer
               (clearTimer (updTicker a (\<lambda>t. t\<lparr>isPolling := False, isScheduled := False\<rparr>) s)
                  (scheduleTimeout (heap s a)))
               (recapIntervalId (heap s a))"
  have "sameWorkers s ?s1"
    by (simp add: sameWorkers_def prim_defs split: option.splits)
  from sameWorkers_trans[OF this Cons.IH[of ?s1]] show ?case by simp
qed

lemma onDisconnected_workers: "sameWorkers s (onDisconnected s)"
  using disconnect_fold_workers[of s "map snd (activeTickers s)"]
  by (simp add: onDisconnected_def sameWorkers_def saveSeenTickers_def)

lemma dispatcherLoop_counter:
  "activeWorkers s = int (length (inflight s)) \<Longrightarrow>
     activeWorkers (dispatcherLoop e s) = int (length (inflight (dispatcherLoop e s)))"
  using runWorker_counter[of e "s\<lparr>activeWorkers := activeWorkers s + 1, jobQueue := tl (jobQueue s)\<rparr>"
      "hd (jobQueue s)"]
  by (auto simp add: dispatcherLoop_def)

lemma reachable_counter: "reachable e s \<Longrightarrow> activeWorkers s = int (length (inflight s))"
proof (induction rule: reachable.induct)
  case start
  then show ?case by (simp add: initSys_def)
next
  case (message s msg)
  with onMessage_workers[of s e msg] show ?case by (simp add: sameWorkers_def)
next
  case (scheduler s)
  with masterScheduler_workers[of s] show ?case by (simp add: sameWorkers_def)
next
  case (dispatcher s)
  from dispatcherLoop_counter[OF dispatcher.IH] show ?case .
next
  case (fetched s i res)
  show ?case
  proof (cases "i < length (inflight s)")
    case True
    with fetched resumeWorker_counter[OF True, of e res] show ?thesis by (simp add: min_def)
  next
    case False
    with fetched show ?thesis by (simp add: resumeWorker_idle)
  qed
next
  case (timer s h)
  with fireTimer_workers[of s e h] show ?case by (simp add: sameWorkers_def)
next
  case (disconnected s)
  with onDisconnected_workers[of s] show ?case by (simp add: sameWorkers_def)
next
  case (time s d)
  then show ?case by simp
qed

text \<open>
  Claim C6. In every reachable state the counter equals the number of workers that are
  running (suspended in their fetch). Every worker gives its unit back exactly once:
  a worker that resumes, whatever the fetch brought and whether its body returns or
  throws, lowers the counter by one and leaves the running workers; a worker that is
  started either ends at once with the counter lowered by one (stale job, or an address
  that cannot be parsed), or becomes a running worker with the counter untouched.
\<close>

theorem worker_budget_never_leaks:
  assumes "reachable e s"
  shows "activeWorkers s = int (length (inflight s)) \<and>
         (\<forall>i res. i < length (inflight s) \<longrightarrow>
            activeWorkers (resumeWorker e s i res) = activeWorkers s - 1 \<and>
            inflight (resumeWorker e s i res) = take i (inflight s) @ drop (Suc i) (inflight s)) \<and>
         (\<forall>j. (activeWorkers (runWorker e s j) = activeWorkers s - 1 \<and>
               inflight (runWorker e s j) = inflight s) \<or>
              (\<exists>a. activeWorkers (runWorker e s j) = activeWorkers s \<and>
                   inflight (runWorker e s j) = inflight s @ [(j, a)]))"
  using reachable_counter[OF assms] resumeWorker_counter[of _ s e] runWorker_counter[of e s]
  by blast

text \<open>
  One poll worker is running for chat A: the counter is 1; when its fetch fails the counter
  is back at 0 and no worker runs.
\<close>

theorem worker_budget_never_leaks_witness:
  "reachable env0 sA3 \<and> activeWorkers sA3 = 1 \<and> length (inflight sA3) = 1 \<and>
   activeWorkers (resumeWorker env0 sA3 0 FetchError) = 0 \<and>
   inflight (resumeWorker env0 sA3 0 FetchError) = []"
proof -
  have l: "length (inflight sA3) = 1"
    using sA3_facts(2) by (cases "inflight sA3") auto
  from worker_budget_never_leaks[OF sA3_reachable] l sA3_reachable show ?thesis
    by (auto simp add: sA3_facts)
qed


section \<open>One tick of the dispatcher\<close>

lemma reachable_budget:
  "reachable e s \<Longrightarrow> 0 \<le> activeWorkers s \<and> activeWorkers s \<le> MAX_WORKERS"
proof (induction rule: reachable.induct)
  case start
  then show ?case by (simp add: initSys_def MAX_WORKERS_def)
next
  case (message s msg)
  with onMessage_workers[of s e msg] show ?case by (simp add: sameWorkers_def)
next
  case (scheduler s)
  with masterScheduler_workers[of s] show ?case by (simp add: sameWorkers_def)
next
  case (dispatcher s)
  from runWorker_counter[of e "s\<lparr>activeWorkers := activeWorkers s + 1, jobQueue := tl (jobQueue s)\<rparr>"
      "hd (jobQueue s)"] dispatcher.IH
  show ?case by (auto simp add: dispatcherLoop_def)
next
  case (fetched s i res)
  show ?case
  proof (cases "i < length (inflight s)")
    case True
    from reachable_counter[OF fetched.hyps] True have "0 < activeWorkers s" by auto
    with fetched.IH resumeWorker_counter(1)[OF True, of e res] show ?thesis by simp
  next
    case False
    with fetched.IH show ?thesis by (simp add: resumeWorker_idle)
  qed
next
  case (timer s h)
  with fireTimer_workers[of s e h] show ?case by (simp add: sameWorkers_def)
next
  case (disconnected s)
  with onDisconnected_workers[of s] show ?case by (simp add: sameWorkers_def)
next
  case (time s d)
  then show ?case by simp
qed

lemma dispatcherLoop_idle:
  "jobQueue s = [] \<or> MAX_WORKERS \<le> activeWorkers s \<Longrightarrow> dispatcherLoop e s = s"
  by (auto simp add: dispatcherLoop_def)

lemma dispatcherLoop_stale:
  assumes "jobQueue s \<noteq> []" "activeWorkers s < MAX_WORKERS" "claimed s (hd (jobQueue s)) = None"
  shows "dispatcherLoop e s = s\<lparr>jobQueue := tl (jobQueue s)\<rparr>"
  using assms
  by (auto simp add: dispatcherLoop_def runWorker_def claimed_def split: option.splits if_splits)

lemma dispatcherLoop_suspends:
  assumes "jobQueue s \<noteq> []" "activeWorkers s < MAX_WORKERS"
    "claimed s (hd (jobQueue s)) = Some a" "urlOk e (job_meetingPageUrl (hd (jobQueue s)))"
  shows "dispatcherLoop e s =
           s\<lparr>jobQueue := tl (jobQueue s), activeWorkers := activeWorkers s + 1,
             inflight := inflight s @ [(hd (jobQueue s), a)]\<rparr>"
  using assms
  by (auto simp add: dispatcherLoop_def runWorker_def claimed_def split: option.splits if_splits)

lemma workerCatch_budget:
  "workerCatch e (s\<lparr>activeWorkers := n\<rparr>) j = (workerCatch e s j)\<lparr>activeWorkers := n\<rparr>"
  by (simp add: workerCatch_def prim_defs Let_def split: prod.splits)

lemma dispatcherLoop_bad_url:
  assumes "jobQueue s \<noteq> []" "activeWorkers s < MAX_WORKERS"
    "claimed s (hd (jobQueue s)) = Some a" "\<not> urlOk e (job_meetingPageUrl (hd (jobQueue s)))"
  shows "dispatcherLoop e s = workerCatch e (s\<lparr>jobQueue := tl (jobQueue s)\<rparr>) (hd (jobQueue s))"
proof -
  let ?j = "hd (jobQueue s)"
  let ?s0 = "s\<lparr>jobQueue := tl (jobQueue s)\<rparr>"
  have u: "s\<lparr>activeWorkers := activeWorkers s + 1, jobQueue := tl (jobQueue s)\<rparr>
             = ?s0\<lparr>activeWorkers := activeWorkers s + 1\<rparr>" by simp
  have "dispatcherLoop e s = workerFinish e ?j (?s0\<lparr>activeWorkers := activeWorkers s + 1\<rparr>, Throws)"
    using assms unfolding dispatcherLoop_def runWorker_def claimed_def u
    by (auto split: option.splits if_splits)
  also have "\<dots> = workerCatch e ?s0 ?j"
    using workerCatch_workers[of ?s0 e ?j]
    by (simp add: workerFinish_def workerCatch_budget sameWorkers_def)
  finally show ?thesis .
qed

lemma sD0_eq:
  "sD0 = sAB\<lparr>jobQueue := [jobA, jobB, jobA],
              outbox := outbox sAB @ [Sent ''A'' (planningNotice ''Fans A'') True], sends := 3\<rparr>"
  by (simp add: sD0_def sAB_eq sA_eq data_defs step_defs fun_eq_iff)

lemma sD1_eq: "sD1 = sD0\<lparr>jobQueue := [jobB, jobA], activeWorkers := 1, inflight := [(jobA, 0)]\<rparr>"
  by (simp add: sD1_def sD0_eq sAB_eq sA_eq data_defs step_defs)

lemma sD2_eq:
  "sD2 = sD0\<lparr>jobQueue := [jobA], activeWorkers := 2, inflight := [(jobA, 0), (jobB, 1)]\<rparr>"
  by (simp add: sD2_def sD1_eq sD0_eq sAB_eq sA_eq data_defs step_defs)

lemma sD2_reachable: "reachable env0 sD2"
  unfolding sD2_def sD1_def sD0_def by (intro reachable.intros sAB_reachable)

text \<open>
  Claim C5, as amended. A tick with an empty queue, or with the budget used up
  (\<^verbatim>\<open>activeWorkers >= MAX_WORKERS\<close>), changes nothing. Any other tick pops the oldest job,
  and only that one, and starts a worker for it without waiting for its end:
  \<^item> a worker for a stale job ends at once, and only the job is gone;
  \<^item> a worker whose address \<^verbatim>\<open>new URL\<close> accepts is suspended in its fetch, with the ticker
    object it has read, and holds one unit of the budget;
  \<^item> a worker whose address is rejected has run its \<^verbatim>\<open>catch\<close> and given its unit back.

  In every state the system reaches the counter lies between 0 and \<^verbatim>\<open>MAX_WORKERS\<close>,
  before the tick and after it.
\<close>

theorem dispatcher_pops_at_most_one:
  "(jobQueue s = [] \<or> MAX_WORKERS \<le> activeWorkers s \<longrightarrow> dispatcherLoop e s = s) \<and>
   (jobQueue s \<noteq> [] \<and> activeWorkers s < MAX_WORKERS \<longrightarrow>
      jobQueue (dispatcherLoop e s) = tl (jobQueue s) \<and>
      (case claimed s (hd (jobQueue s)) of
         None \<Rightarrow> dispatcherLoop e s = s\<lparr>jobQueue := tl (jobQueue s)\<rparr>
       | Some a \<Rightarrow>
           if urlOk e (job_meetingPageUrl (hd (jobQueue s)))
           then dispatcherLoop e s =
                  s\<lparr>jobQueue := tl (jobQueue s), activeWorkers := activeWorkers s + 1,
                    inflight := inflight s @ [(hd (jobQueue s), a)]\<rparr>
           else dispatcherLoop e s =
                  workerCatch e (s\<lparr>jobQueue := tl (jobQueue s)\<rparr>) (hd (jobQueue s)))) \<and>
   (reachable e s \<longrightarrow>
      0 \<le> activeWorkers s \<and> activeWorkers s \<le> MAX_WORKERS \<and>
      0 \<le> activeWorkers (dispatcherLoop e s) \<and>
      activeWorkers (dispatcherLoop e s) \<le> MAX_WORKERS)"
proof (intro conjI impI)
  assume "jobQueue s = [] \<or> MAX_WORKERS \<le> activeWorkers s"
  then show "dispatcherLoop e s = s" by (rule dispatcherLoop_idle)
next
  assume "jobQueue s \<noteq> [] \<and> activeWorkers s < MAX_WORKERS"
  then show "jobQueue (dispatcherLoop e s) = tl (jobQueue s)"
    by (simp add: dispatcherLoop_def runWorker_jobQueue)
next
  assume g: "jobQueue s \<noteq> [] \<and> activeWorkers s < MAX_WORKERS"
  show "case claimed s (hd (jobQueue s)) of
          None \<Rightarrow> dispatcherLoop e s = s\<lparr>jobQueue := tl (jobQueue s)\<rparr>
        | Some a \<Rightarrow>
            if urlOk e (job_meetingPageUrl (hd (jobQueue s)))
            then dispatcherLoop e s =
                   s\<lparr>jobQueue := tl (jobQueue s), activeWorkers := activeWorkers s + 1,
                     inflight := inflight s @ [(hd (jobQueue s), a)]\<rparr>
            else dispatcherLoop e s =
                   workerCatch e (s\<lparr>jobQueue := tl (jobQueue s)\<rparr>) (hd (jobQueue s))"
  proof (cases "claimed s (hd (jobQueue s))")
    case None
    with g dispatcherLoop_stale[of s e] show ?thesis by simp
  next
    case (Some a)
    with g dispatcherLoop_suspends[of s a e] dispatcherLoop_bad_url[of s a e] show ?thesis by simp
  qed
next
  assume r: "reachable e s"
  from reachable_budget[OF r] show "0 \<le> activeWorkers s" "activeWorkers s \<le> MAX_WORKERS"
    by simp_all
  from reachable_budget[OF reachable.dispatcher[OF r]]
  show "0 \<le> activeWorkers (dispatcherLoop e s)" "activeWorkers (dispatcherLoop e s) \<le> MAX_WORKERS"
    by simp_all
qed

text \<open>
  With the schedule jobs of chats A and B queued and no worker running, the tick starts
  the worker for chat A and leaves the job of chat B. With two workers running and a
  job queued, the tick does nothing.
\<close>

theorem dispatcher_pops_at_most_one_witness:
  "reachable env0 sAB \<and> jobQueue sAB = [jobA, jobB] \<and> activeWorkers sAB < MAX_WORKERS \<and>
   claimed sAB jobA = Some 0 \<and> urlOk env0 (job_meetingPageUrl jobA) \<and>
   dispatcherLoop env0 sAB =
     sAB\<lparr>jobQueue := [jobB], activeWorkers := 1, inflight := [(jobA, 0)]\<rparr> \<and>
   reachable env0 sD2 \<and> jobQueue sD2 = [jobA] \<and> activeWorkers sD2 = MAX_WORKERS \<and>
   dispatcherLoop env0 sD2 = sD2 \<and>
   activeWorkers (dispatcherLoop env0 sAB) \<le> MAX_WORKERS"
proof -
  have a: "jobQueue sAB = [jobA, jobB]" "activeWorkers sAB = 0" "inflight sAB = []"
    by (simp_all add: sAB_eq sA_eq)
  have c: "claimed sAB jobA = Some 0" "urlOk env0 (job_meetingPageUrl jobA)"
    by (simp_all add: claimed_def urlOk_def mapGet_def sAB_eq sA_eq data_defs)
  have d: "jobQueue sD2 = [jobA]" "activeWorkers sD2 = MAX_WORKERS"
    by (simp_all add: sD2_eq MAX_WORKERS_def)
  from dispatcher_pops_at_most_one[of sAB env0] dispatcher_pops_at_most_one[of sD2 env0]
    a c d sAB_reachable sD2_reachable
  show ?thesis by (simp add: MAX_WORKERS_def)
qed

text \<open>
  Claim C5 as stated fails: two jobs are queued and no worker runs; after one tick a job
  is still queued although the budget is not used up.
\<close>

theorem dispatcher_drains_counterexample:
  "reachable env0 sAB \<and> length (jobQueue sAB) = 2 \<and> activeWorkers sAB = 0 \<and>
   length (jobQueue (dispatcherLoop env0 sAB)) = 1 \<and>
   activeWorkers (dispatcherLoop env0 sAB) = 1 \<and>
   activeWorkers (dispatcherLoop env0 sAB) < MAX_WORKERS"
  using sAB_reachable
  by (simp add: sAB_eq sA_eq data_defs step_defs)


section \<open>The run of the recap ticker\<close>

lemmas poll_defs = pollJob_def processEvents_def loopBody_def isGameEnd_def RECAP_INTERVAL_MINUTES_def

lemma sC_eq:
  "sC = \<lparr>heap = (\<lambda>_. newTickerState)(0 := tickerB0), nextAddr = 1, activeTickers = [(''B'', 0)],
          jobQueue = [jobB], lastPolledIndex = - 1, activeWorkers = 0, inflight = [],
          timers = [], nextTimer = 0, scheduleFile = Map.empty, seenFile = [],
          outbox = [Sent ''B'' (planningNotice ''Fans B'') True], sends = 1, clock = 0\<rparr>"
  by (simp add: sC_def env3_def data_defs step_defs)

lemma sC1_eq: "sC1 = sC\<lparr>jobQueue := [], activeWorkers := 1, inflight := [(jobB, 0)]\<rparr>"
  by (simp add: sC1_def sC_eq env3_def data_defs step_defs)

lemma sC2_eq:
  "sC2 = sC\<lparr>heap := (heap sC)(0 := tickerB), jobQueue := [pollB],
             timers := [\<lparr>tm_handle = 0, tm_delay = 300000, tm_interval = True,
                         tm_action = CallSendRecapMessage ''B''\<rparr>],
             nextTimer := 1,
             outbox := outbox sC @ [Sent ''B'' (startMessage namesHG (Some Recap)) True,
                                    Sent ''B'' (jsTrim legendMessage) True],
             sends := 3\<rparr>"
  by (simp add: sC2_def sC1_eq sC_eq env3_def data_defs step_defs poll_defs)

lemma sC3_eq: "sC3 = sC2\<lparr>jobQueue := [], activeWorkers := 1, inflight := [(pollB, 0)]\<rparr>"
  by (simp add: sC3_def sC2_eq sC_eq env3_def data_defs step_defs)

lemma sC4_eq:
  "sC4 = sC2\<lparr>heap := (heap sC2)(0 := tickerB\<lparr>seen := [''e1'', ''e2''],
                                               recapEvents := [goal1, goal2],
                                               lastUpdatedAt := Some ''v1''\<rparr>),
              jobQueue := [], seenFile := [(''B'', [''e1'', ''e2''])],
              outbox := outbox sC2 @ [SavedSeen]\<rparr>"
  by (simp add: sC4_def sC3_eq sC2_eq sC_eq env3_def data_defs step_defs poll_defs)

lemma sC4_reachable: "reachable env3 sC4"
  unfolding sC4_def sC3_def sC2_def sC1_def sC_def by (intro reachable.intros)

section \<open>Poll jobs in the queue\<close>

lemma subseq_set: "subseq xs ys \<Longrightarrow> set xs \<subseteq> set ys"
  by (induction rule: list_emb.induct) auto

lemma subseq_distinct: "subseq xs ys \<Longrightarrow> distinct ys \<Longrightarrow> distinct xs"
  by (induction rule: list_emb.induct) (auto dest: subseq_set)

lemma pollUnique_subseq: "subseq q' q \<Longrightarrow> pollUnique q \<Longrightarrow> pollUnique q'"
  unfolding pollUnique_def
  by (meson subseq_distinct subseq_filter subseq_map)

lemma subseq_removeFirstJob: "subseq (removeFirstJob c q) q"
  by (induction q) auto

lemma subseq_tl: "subseq (tl q) q"
  by (cases q) auto

lemma pollUnique_schedule: "job_type j = Schedule \<Longrightarrow> pollUnique (q @ [j]) = pollUnique q"
  by (simp add: pollUnique_def)

lemma pollUnique_push:
  "job_type j = Poll \<Longrightarrow> \<not> hasPollJob q (job_chatId j) \<Longrightarrow> pollUnique q \<Longrightarrow> pollUnique (q @ [j])"
  by (auto simp add: pollUnique_def hasPollJob_def)

lemma pollUnique_unshift:
  "job_type j = Poll \<Longrightarrow> \<not> hasPollJob q (job_chatId j) \<Longrightarrow> pollUnique q \<Longrightarrow> pollUnique (j # q)"
  by (auto simp add: pollUnique_def hasPollJob_def)

lemma sendRecapMessage_jobQueue: "sendRecapMessage e s c = (s', r) \<Longrightarrow> jobQueue s' = jobQueue s"
  by (auto simp add: sendRecapMessage_def prim_keeps Let_def split: option.splits if_splits)

lemma gameEnd_jobQueue: "jobQueue (gameEnd e gd evs a c s) = removeFirstJob c (jobQueue s)"
  by (simp add: gameEnd_def prim_defs Let_def split: option.splits)

lemma loopBody_jobQueue:
  "loopBody e gd evs a c ev s = (s', r) \<Longrightarrow>
     jobQueue s' = (if r = Ended then removeFirstJob c (jobQueue s) else jobQueue s)"
  by (auto simp add: loopBody_def gameEnd_jobQueue prim_defs Let_def
      split: option.splits prod.splits completion.splits if_splits
      dest!: sendRecapMessage_jobQueue)

lemma eventLoop_jobQueue:
  "eventLoop e gd evs a c xs s n = (s', r) \<Longrightarrow> subseq (jobQueue s') (jobQueue s)"
proof (induction xs arbitrary: s n)
  case Nil
  then show ?case by simp
next
  case (Cons x xs)
  obtain s1 p where lb: "loopBody e gd evs a c x s = (s1, p)"
    by (cases "loopBody e gd evs a c x s")
  have q: "subseq (jobQueue s1) (jobQueue s)"
    using loopBody_jobQueue[OF lb] by (simp add: subseq_removeFirstJob)
  show ?case
  proof (cases p)
    case Skipped
    with Cons.prems lb have "eventLoop e gd evs a c xs s1 n = (s', r)" by simp
    from subseq_order.trans[OF Cons.IH[OF this] q] show ?thesis .
  next
    case Processed
    with Cons.prems lb have "eventLoop e gd evs a c xs s1 True = (s', r)" by simp
    from subseq_order.trans[OF Cons.IH[OF this] q] show ?thesis .
  next
    case Ended
    with Cons.prems lb q show ?thesis by simp
  next
    case Raised
    with Cons.prems lb q show ?thesis by simp
  qed
qed

lemma processEvents_jobQueue:
  "processEvents e s gd a c = (s', r) \<Longrightarrow> subseq (jobQueue s') (jobQueue s)"
  by (auto simp add: processEvents_def split: eventsField.splits dest: eventLoop_jobQueue)

lemma beginActualPolling_pollUnique:
  "pollUnique (jobQueue s) \<Longrightarrow> pollUnique (jobQueue (beginActualPolling e s c))"
  by (auto simp add: beginActualPolling_def prim_keeps Let_def split: option.splits
      intro!: pollUnique_unshift)

lemma scheduleLater_jobQueue: "scheduleLater e s c a n st = (s', r) \<Longrightarrow> jobQueue s' = jobQueue s"
  by (auto simp add: scheduleLater_def prim_defs Let_def split: if_splits)

lemma startNow_pollUnique:
  "startNow e s c a n = (s', r) \<Longrightarrow> pollUnique (jobQueue s) \<Longrightarrow> pollUnique (jobQueue s')"
  by (auto simp add: startNow_def prim_defs Let_def split: if_splits
      intro!: beginActualPolling_pollUnique)

lemma scheduleJob_pollUnique:
  "scheduleJob e s j a sm = (s', r) \<Longrightarrow> pollUnique (jobQueue s) \<Longrightarrow> pollUnique (jobQueue s')"
  by (auto simp add: scheduleJob_def Let_def updTicker_def
      split: option.splits if_splits dest!: scheduleLater_jobQueue startNow_pollUnique)

lemma pollJob_jobQueue: "pollJob e s j a gd sm = (s', r) \<Longrightarrow> subseq (jobQueue s') (jobQueue s)"
  by (auto simp add: pollJob_def Let_def prim_defs
      split: option.splits if_splits prod.splits completion.splits dest!: processEvents_jobQueue)

lemma workerBody_pollUnique:
  "workerBody e s j a res = (s', r) \<Longrightarrow> pollUnique (jobQueue s) \<Longrightarrow> pollUnique (jobQueue s')"
  by (auto simp add: workerBody_def split: fetchResult.splits option.splits if_splits
      dest: scheduleJob_pollUnique pollJob_jobQueue pollUnique_subseq)

lemma workerFinish_jobQueue: "jobQueue (workerFinish e j (s, r)) = jobQueue s"
  by (cases r) (simp_all add: workerFinish_def workerCatch_jobQueue Let_def)

lemma resumeWorker_pollUnique:
  "pollUnique (jobQueue s) \<Longrightarrow> pollUnique (jobQueue (resumeWorker e s i res))"
proof (cases "at (inflight s) i")
  case None
  assume "pollUnique (jobQueue s)"
  with None show ?thesis by (simp add: resumeWorker_def)
next
  case (Some ja)
  assume u: "pollUnique (jobQueue s)"
  obtain j a where ja: "ja = (j, a)" by (cases ja)
  let ?s0 = "s\<lparr>inflight := take i (inflight s) @ drop (Suc i) (inflight s)\<rparr>"
  obtain s1 r where wb: "workerBody e ?s0 j a res = (s1, r)"
    by (cases "workerBody e ?s0 j a res")
  from workerBody_pollUnique[OF wb] u have "pollUnique (jobQueue s1)" by simp
  with Some ja wb show ?thesis by (simp add: resumeWorker_def workerFinish_jobQueue)
qed

lemma dispatcherLoop_pollUnique:
  "pollUnique (jobQueue s) \<Longrightarrow> pollUnique (jobQueue (dispatcherLoop e s))"
  using pollUnique_subseq[OF subseq_tl]
  by (simp add: dispatcherLoop_def runWorker_jobQueue)

lemma masterScheduler_pollUnique:
  "pollUnique (jobQueue s) \<Longrightarrow> pollUnique (jobQueue (masterScheduler s))"
  by (auto simp add: masterScheduler_def Let_def split: option.splits intro!: pollUnique_push)

lemma queueTickerScheduling_pollUnique:
  "queueTickerScheduling e s url c g m = (s', r) \<Longrightarrow> pollUnique (jobQueue s) \<Longrightarrow>
     pollUnique (jobQueue s')"
  by (auto simp add: queueTickerScheduling_def prim_defs Let_def pollUnique_schedule
      split: if_splits option.splits)

lemma cmdStart_pollUnique:
  "pollUnique (jobQueue s) \<Longrightarrow> pollUnique (jobQueue (cmdStart e s c g url arg2))"
  by (auto simp add: cmdStart_def reply_def Let_def
      split: prod.splits completion.splits dest!: queueTickerScheduling_pollUnique)

lemma cmdStop_jobQueue: "subseq (jobQueue (cmdStop e s c)) (jobQueue s)"
  by (simp add: cmdStop_def prim_keeps Let_def subseq_removeFirstJob split: option.splits)

lemma cmdReset_jobQueue: "subseq (jobQueue (cmdReset e s c)) (jobQueue s)"
  by (simp add: cmdReset_def prim_keeps Let_def subseq_removeFirstJob split: option.splits)

lemma onMessage_pollUnique:
  "pollUnique (jobQueue s) \<Longrightarrow> pollUnique (jobQueue (onMessage e s msg))"
  using cmdStart_pollUnique pollUnique_subseq[OF cmdStop_jobQueue]
    pollUnique_subseq[OF cmdReset_jobQueue]
  by (simp add: onMessage_def Let_def reply_def)

lemma runCallback_pollUnique:
  "pollUnique (jobQueue s) \<Longrightarrow> pollUnique (jobQueue (runCallback e s act))"
proof (cases act)
  case (CallBeginActualPolling c)
  assume "pollUnique (jobQueue s)"
  with CallBeginActualPolling show ?thesis
    by (simp add: runCallback_def beginActualPolling_pollUnique)
next
  case (CallSendRecapMessage c)
  assume "pollUnique (jobQueue s)"
  with CallSendRecapMessage sendRecapMessage_jobQueue[of e s c] show ?thesis
    by (cases "sendRecapMessage e s c") (simp add: runCallback_def)
qed (simp_all add: runCallback_def prim_defs)

lemma fireTimer_pollUnique:
  "pollUnique (jobQueue s) \<Longrightarrow> pollUnique (jobQueue (fireTimer e s h))"
  using runCallback_pollUnique[of s e] runCallback_pollUnique[of "clearTimer s (Some h)" e]
  by (simp add: fireTimer_def clearTimer_def split: option.splits)

lemma disconnect_fold_jobQueue:
  "jobQueue
     (foldl (\<lambda>s' a. clearTimer
                       (clearTimer
                          (updTicker a (\<lambda>t. t\<lparr>isPolling := False, isScheduled := False\<rparr>) s')
                          (scheduleTimeout (heap s' a)))
                       (recapIntervalId (heap s' a)))
        s as) = jobQueue s"
  by (induction as arbitrary: s) (simp_all add: prim_defs split: option.splits)

lemma onDisconnected_jobQueue: "jobQueue (onDisconnected s) = jobQueue s"
  by (simp add: onDisconnected_def saveSeenTickers_def disconnect_fold_jobQueue)

lemma reachable_pollUnique: "reachable e s \<Longrightarrow> pollUnique (jobQueue s)"
proof (induction rule: reachable.induct)
  case start
  then show ?case by (simp add: initSys_def pollUnique_def)
next
  case (message s msg)
  from onMessage_pollUnique[OF message.IH] show ?case .
next
  case (scheduler s)
  from masterScheduler_pollUnique[OF scheduler.IH] show ?case .
next
  case (dispatcher s)
  from dispatcherLoop_pollUnique[OF dispatcher.IH] show ?case .
next
  case (fetched s i res)
  from resumeWorker_pollUnique[OF fetched.IH] show ?case .
next
  case (timer s h)
  from fireTimer_pollUnique[OF timer.IH] show ?case .
next
  case (disconnected s)
  then show ?case by (simp add: onDisconnected_jobQueue)
next
  case (time s d)
  then show ?case by simp
qed

text \<open>
  Claim C1, as amended. In every reachable state the Job Queue holds at most one poll job
  per chat, and neither a tick of the Master Scheduler nor \<^verbatim>\<open>beginActualPolling\<close> puts a
  second poll job for a chat into the queue. Poll jobs that a worker has taken out of
  the queue are not counted.
\<close>

theorem queue_has_one_poll_job_per_chat:
  assumes "reachable e s"
  shows "pollUnique (jobQueue s) \<and> pollUnique (jobQueue (masterScheduler s)) \<and>
         pollUnique (jobQueue (beginActualPolling e s c))"
  using reachable_pollUnique[OF assms] masterScheduler_pollUnique beginActualPolling_pollUnique
  by blast

text \<open>
  The first poll job of chat A is queued; the tick of the scheduler and a repeated
  \<^verbatim>\<open>beginActualPolling\<close> add nothing.
\<close>

theorem queue_has_one_poll_job_per_chat_witness:
  "reachable env0 sA2 \<and> map job_chatId (jobQueue sA2) = [''A''] \<and>
   map job_type (jobQueue sA2) = [Poll] \<and> pollUnique (jobQueue sA2) \<and>
   pollUnique (jobQueue (masterScheduler sA2)) \<and>
   pollUnique (jobQueue (beginActualPolling env0 sA2 ''A'')) \<and>
   length (jobQueue (masterScheduler sA2)) = 1"
proof -
  have "map job_chatId (jobQueue sA2) = [''A'']" "length (jobQueue (masterScheduler sA2)) = 1"
    by (simp_all add: sA2_eq sA_eq data_defs step_defs)
  with queue_has_one_poll_job_per_chat[OF sA2_reachable, of "''A''"] sA2_reachable sA2_facts(3)
  show ?thesis by simp
qed

text \<open>
  Claim C1 as stated fails: a worker has taken the poll job of chat A and waits for its
  fetch; the next tick of the Master Scheduler, which looks at the queue only, enqueues
  another poll job for A. Two poll jobs for A are then outstanding.
\<close>

theorem second_poll_while_in_flight_counterexample:
  "reachable env0 sA4 \<and>
   map job_chatId (filter (\<lambda>j. job_type j = Poll) (map fst (inflight sA3))) = [''A''] \<and>
   jobQueue sA3 = [] \<and>
   map job_chatId (filter (\<lambda>j. job_type j = Poll) (jobQueue sA4)) = [''A''] \<and>
   length (outstandingPolls sA4 ''A'') = 2"
proof -
  have "reachable env0 sA4" unfolding sA4_def by (intro reachable.scheduler sA3_reachable)
  then show ?thesis
    by (simp add: outstandingPolls_def sA4_eq sA3_eq sA2_eq sA_eq data_defs)
qed


section \<open>The recap buffer\<close>

lemma recapQuiet_refl [simp]: "recapQuiet A s s"
  by (simp add: recapQuiet_def)

lemma recapQuiet_trans: "recapQuiet A s s1 \<Longrightarrow> recapQuiet A s1 s2 \<Longrightarrow> recapQuiet A s s2"
  unfolding recapQuiet_def by blast

lemma recapQuiet_mono: "recapQuiet {} s s' \<Longrightarrow> recapQuiet A s s'"
  unfolding recapQuiet_def by blast

lemma recapQuiet_named:
  "recapQuiet A s s' \<Longrightarrow> buffersNamed s \<Longrightarrow> \<forall>a\<in>A. teamNames (heap s a) \<noteq> None \<Longrightarrow>
     buffersNamed s'"
  unfolding recapQuiet_def buffersNamed_def by blast

lemma recapQuiet_names:
  "recapQuiet A s s' \<Longrightarrow> teamNames (heap s a) \<noteq> None \<Longrightarrow> teamNames (heap s' a) \<noteq> None"
  unfolding recapQuiet_def by blast

lemma sort_key_Nil_iff: "sort_key f xs = [] \<longleftrightarrow> xs = []"
  by (metis length_0_conv length_sort)

lemma beginActualPolling_quiet: "recapQuiet {} s (beginActualPolling e s c)"
  by (simp add: recapQuiet_def beginActualPolling_def prim_keeps Let_def split: option.splits)

lemma sendRecapMessage_quiet: "sendRecapMessage e s c = (s', r) \<Longrightarrow> recapQuiet {} s s'"
  by (auto simp add: recapQuiet_def sendRecapMessage_def prim_keeps Let_def sort_key_Nil_iff
      split: option.splits if_splits)

lemma gameEnd_quiet: "recapQuiet {} s (gameEnd e gd evs a c s)"
  by (simp add: recapQuiet_def gameEnd_def prim_defs Let_def split: option.splits)

lemma loopBody_quiet: "loopBody e gd evs a c ev s = (s', r) \<Longrightarrow> recapQuiet {a} s s'"
proof -
  assume lb: "loopBody e gd evs a c ev s = (s', r)"
  show ?thesis
  proof (cases "ev_id ev \<in> set (seen (heap s a))")
    case True
    with lb show ?thesis by (simp add: loopBody_def)
  next
    case False
    let ?s1 = "updTicker a (\<lambda>t. t\<lparr>seen := seen t @ [ev_id ev]\<rparr>) s"
    have q1: "recapQuiet {a} s ?s1" by (simp add: recapQuiet_def updTicker_def)
    show ?thesis
    proof (cases "if mode (heap ?s1 a) = Some Live
                  then formatEvent ev (heap ?s1 a) (gd_summary gd) else Some []")
      case None
      with lb False q1 show ?thesis by (simp add: loopBody_def Let_def)
    next
      case (Some msg)
      let ?s2 = "if mode (heap ?s1 a) = Some Live \<and> msg \<noteq> []
                 then fst (sendMessage e ?s1 c msg)
                 else if mode (heap ?s1 a) = Some Recap
                 then updTicker a (\<lambda>t. t\<lparr>recapEvents := recapEvents t @ [ev]\<rparr>) ?s1
                 else ?s1"
      have q2: "recapQuiet {a} s ?s2" by (simp add: recapQuiet_def prim_defs)
      let ?call = "if (ev_type ev = ''StopPeriod'' \<or> ev_type ev = ''StartPeriod'')
                      \<and> mode (heap ?s2 a) = Some Recap
                   then sendRecapMessage e ?s2 c else (?s2, Returns ())"
      obtain s3 r3 where c3: "?call = (s3, r3)" by (cases ?call)
      have "recapQuiet {} ?s2 s3"
        using c3 sendRecapMessage_quiet[of e ?s2 c s3 r3] by (auto split: if_splits)
      from recapQuiet_trans[OF q2 recapQuiet_mono[OF this]] have q3: "recapQuiet {a} s s3" .
      have q4: "recapQuiet {a} s (gameEnd e gd evs a c s3)"
        by (rule recapQuiet_trans[OF q3 recapQuiet_mono[OF gameEnd_quiet]])
      have "s' = s3 \<or> s' = gameEnd e gd evs a c s3"
        using lb False Some c3
        by (cases r3) (auto simp add: loopBody_def Let_def split: if_splits)
      with q3 q4 show ?thesis by auto
    qed
  qed
qed

lemma eventLoop_quiet: "eventLoop e gd evs a c xs s n = (s', r) \<Longrightarrow> recapQuiet {a} s s'"
proof (induction xs arbitrary: s n)
  case Nil
  then show ?case by simp
next
  case (Cons x xs)
  obtain s1 p where lb: "loopBody e gd evs a c x s = (s1, p)"
    by (cases "loopBody e gd evs a c x s")
  have q: "recapQuiet {a} s s1" by (rule loopBody_quiet[OF lb])
  show ?case
  proof (cases p)
    case Skipped
    with Cons.prems lb have "eventLoop e gd evs a c xs s1 n = (s', r)" by simp
    from recapQuiet_trans[OF q Cons.IH[OF this]] show ?thesis .
  next
    case Processed
    with Cons.prems lb have "eventLoop e gd evs a c xs s1 True = (s', r)" by simp
    from recapQuiet_trans[OF q Cons.IH[OF this]] show ?thesis .
  next
    case Ended
    with Cons.prems lb q show ?thesis by simp
  next
    case Raised
    with Cons.prems lb q show ?thesis by simp
  qed
qed

lemma processEvents_quiet: "processEvents e s gd a c = (s', r) \<Longrightarrow> recapQuiet {a} s s'"
  by (auto simp add: processEvents_def split: eventsField.splits dest: eventLoop_quiet)

lemma scheduleLater_quiet: "scheduleLater e s c a n st = (s', r) \<Longrightarrow> recapQuiet {} s s'"
  by (auto simp add: scheduleLater_def recapQuiet_def prim_defs Let_def split: if_splits)

lemma startNow_quiet: "startNow e s c a n = (s', r) \<Longrightarrow> recapQuiet {} s s'"
proof -
  assume sn: "startNow e s c a n = (s', r)"
  let ?s2 = "fst (sendMessage e s c (startMessage n (mode (heap s a))))"
  let ?s3 = "updTicker a (\<lambda>t. t\<lparr>isScheduling := False\<rparr>) ?s2"
  have q3: "recapQuiet {} s ?s3" by (simp add: recapQuiet_def prim_keeps)
  have "s' = ?s2 \<or> s' = beginActualPolling e ?s3 c"
    using sn by (auto simp add: startNow_def Let_def split_beta split: if_splits)
  moreover have "recapQuiet {} s ?s2" by (simp add: recapQuiet_def prim_keeps)
  moreover have "recapQuiet {} s (beginActualPolling e ?s3 c)"
    by (rule recapQuiet_trans[OF q3 beginActualPolling_quiet])
  ultimately show ?thesis by auto
qed

lemma scheduleJob_quiet: "scheduleJob e s j a sm = (s', r) \<Longrightarrow> recapQuiet {} s s'"
proof -
  assume sj: "scheduleJob e s j a sm = (s', r)"
  show ?thesis
  proof (cases "homeTeam sm")
    case None
    with sj show ?thesis by (simp add: scheduleJob_def Let_def)
  next
    case (Some h)
    show ?thesis
    proof (cases "awayTeam sm")
      case None
      with sj Some show ?thesis by (simp add: scheduleJob_def Let_def)
    next
      case g: (Some g)
      let ?s1 = "updTicker a
                  (\<lambda>t. t\<lparr>teamNames := Some \<lparr>home = h, guest = g\<rparr>,
                         lastUpdatedAt := updatedAt sm,
                         meetingPageUrl := job_meetingPageUrl j\<rparr>) s"
      have q1: "recapQuiet {} s ?s1" by (simp add: recapQuiet_def updTicker_def)
      have "recapQuiet {} ?s1 s'"
        using sj Some g
        by (auto simp add: scheduleJob_def Let_def split: option.splits if_splits
            dest: scheduleLater_quiet startNow_quiet)
      from recapQuiet_trans[OF q1 this] show ?thesis .
    qed
  qed
qed

lemma pollJob_named:
  assumes pj: "pollJob e s j a gd sm = (s', r)" and bn: "buffersNamed s"
  shows "buffersNamed s'"
proof -
  let ?pre = "if teamNames (heap s a) = None
              then (case (homeTeam sm, awayTeam sm) of
                      (Some h, Some g) \<Rightarrow>
                        Some (updTicker a (\<lambda>t. t\<lparr>teamNames := Some \<lparr>home = h, guest = g\<rparr>\<rparr>) s)
                    | _ \<Rightarrow> None)
              else Some s"
  show ?thesis
  proof (cases ?pre)
    case None
    with pj have "s' = s" by (simp add: pollJob_def)
    with bn show ?thesis by simp
  next
    case (Some s1)
    have n1: "teamNames (heap s1 a) \<noteq> None" and b1: "buffersNamed s1"
      using Some bn
      by (auto simp add: updTicker_def buffersNamed_def split: if_splits option.splits)
    show ?thesis
    proof (cases "truthy (updatedAt sm) \<and> updatedAt sm \<noteq> lastUpdatedAt (heap s1 a)")
      case False
      with pj Some have "s' = s1" by (auto simp add: pollJob_def Let_def)
      with b1 show ?thesis by simp
    next
      case True
      let ?s2 = "updTicker a (\<lambda>t. t\<lparr>lastUpdatedAt := updatedAt sm\<rparr>) s1"
      obtain s3 r3 where pe: "processEvents e ?s2 gd a (job_chatId j) = (s3, r3)"
        by (cases "processEvents e ?s2 gd a (job_chatId j)")
      have n2: "\<forall>b\<in>{a}. teamNames (heap ?s2 b) \<noteq> None" and b2: "buffersNamed ?s2"
        using n1 b1 by (auto simp add: updTicker_def buffersNamed_def)
      from recapQuiet_named[OF processEvents_quiet[OF pe] b2 n2] have b3: "buffersNamed s3" .
      have "s' = s3 \<or> s' = saveSeenTickers s3"
        using pj Some True pe by (cases r3) (auto simp add: pollJob_def Let_def split: if_splits)
      with b3 show ?thesis by (auto simp add: buffersNamed_def saveSeenTickers_def)
    qed
  qed
qed

lemma workerBody_named:
  "workerBody e s j a res = (s', r) \<Longrightarrow> buffersNamed s \<Longrightarrow> buffersNamed s'"
  by (auto simp add: workerBody_def split: fetchResult.splits option.splits if_splits
      dest: pollJob_named recapQuiet_named[OF scheduleJob_quiet])

lemma workerCatch_named: "buffersNamed s \<Longrightarrow> buffersNamed (workerCatch e s j)"
  by (simp add: workerCatch_def buffersNamed_def prim_defs Let_def split: prod.splits)

lemma workerFinish_named: "buffersNamed s \<Longrightarrow> buffersNamed (workerFinish e j (s, r))"
  using workerCatch_named[of s e j]
  by (cases r) (simp_all add: workerFinish_def Let_def buffersNamed_def)

lemma resumeWorker_named: "buffersNamed s \<Longrightarrow> buffersNamed (resumeWorker e s i res)"
proof (cases "at (inflight s) i")
  case None
  assume "buffersNamed s"
  with None show ?thesis by (simp add: resumeWorker_def)
next
  case (Some ja)
  assume b: "buffersNamed s"
  obtain j a where ja: "ja = (j, a)" by (cases ja)
  let ?s0 = "s\<lparr>inflight := take i (inflight s) @ drop (Suc i) (inflight s)\<rparr>"
  obtain s1 r where wb: "workerBody e ?s0 j a res = (s1, r)"
    by (cases "workerBody e ?s0 j a res")
  have "buffersNamed ?s0" using b by (simp add: buffersNamed_def)
  from workerFinish_named[OF workerBody_named[OF wb this]] Some ja wb show ?thesis
    by (simp add: resumeWorker_def)
qed

lemma runWorker_named: "buffersNamed s \<Longrightarrow> buffersNamed (runWorker e s j)"
  using workerFinish_named[of s e j Throws]
  by (auto simp add: runWorker_def buffersNamed_def split: option.splits)

lemma dispatcherLoop_named: "buffersNamed s \<Longrightarrow> buffersNamed (dispatcherLoop e s)"
  using runWorker_named[of "s\<lparr>activeWorkers := activeWorkers s + 1, jobQueue := tl (jobQueue s)\<rparr>"]
  by (simp add: dispatcherLoop_def buffersNamed_def)

lemma masterScheduler_named: "buffersNamed s \<Longrightarrow> buffersNamed (masterScheduler s)"
  by (simp add: masterScheduler_def buffersNamed_def Let_def split: option.splits)

lemma queueTickerScheduling_named:
  "queueTickerScheduling e s url c g m = (s', r) \<Longrightarrow> buffersNamed s \<Longrightarrow> buffersNamed s'"
  by (auto simp add: queueTickerScheduling_def buffersNamed_def prim_defs Let_def
      newTickerState_def split: if_splits option.splits)

lemma cmdStart_named: "buffersNamed s \<Longrightarrow> buffersNamed (cmdStart e s c g url arg2)"
proof -
  assume b: "buffersNamed s"
  obtain s1 r where q: "queueTickerScheduling e s url c g
      (if truthy arg2 \<and> toLowerCase (interp arg2) = ''recap'' then Recap else Live) = (s1, r)"
    by (cases "queueTickerScheduling e s url c g
      (if truthy arg2 \<and> toLowerCase (interp arg2) = ''recap'' then Recap else Live)")
  from queueTickerScheduling_named[OF q b] have "buffersNamed s1" .
  with b q show ?thesis
    by (cases r) (auto simp add: cmdStart_def reply_def Let_def buffersNamed_def)
qed

lemma cmdStop_named: "buffersNamed s \<Longrightarrow> buffersNamed (cmdStop e s c)"
  by (simp add: cmdStop_def buffersNamed_def prim_keeps Let_def split: option.splits)

lemma cmdReset_named: "buffersNamed s \<Longrightarrow> buffersNamed (cmdReset e s c)"
  by (simp add: cmdReset_def buffersNamed_def prim_keeps Let_def split: option.splits)

lemma onMessage_named: "buffersNamed s \<Longrightarrow> buffersNamed (onMessage e s msg)"
  using cmdStart_named cmdStop_named cmdReset_named
  by (simp add: onMessage_def Let_def) (simp add: reply_def buffersNamed_def)

lemma runCallback_named: "buffersNamed s \<Longrightarrow> buffersNamed (runCallback e s act)"
proof (cases act)
  case (CallBeginActualPolling c)
  assume "buffersNamed s"
  from recapQuiet_named[OF beginActualPolling_quiet this] CallBeginActualPolling
  show ?thesis by (simp add: runCallback_def)
next
  case (CallSendRecapMessage c)
  assume b: "buffersNamed s"
  obtain s1 r where f: "sendRecapMessage e s c = (s1, r)" by (cases "sendRecapMessage e s c")
  from recapQuiet_named[OF sendRecapMessage_quiet[OF f] b] CallSendRecapMessage f
  show ?thesis by (simp add: runCallback_def)
qed (simp_all add: runCallback_def buffersNamed_def prim_defs)

lemma fireTimer_named: "buffersNamed s \<Longrightarrow> buffersNamed (fireTimer e s h)"
  using runCallback_named[of s e] runCallback_named[of "clearTimer s (Some h)" e]
  by (simp add: fireTimer_def clearTimer_def buffersNamed_def split: option.splits)

lemma disconnect_fold_named:
  "buffersNamed s \<Longrightarrow>
   buffersNamed
     (foldl (\<lambda>s' a. clearTimer
                       (clearTimer
                          (updTicker a (\<lambda>t. t\<lparr>isPolling := False, isScheduled := False\<rparr>) s')
                          (scheduleTimeout (heap s' a)))
                       (recapIntervalId (heap s' a)))
        s as)"
proof (induction as arbitrary: s)
  case Nil
  then show ?case by simp
next
  case (Cons a as)
  let ?s1 = "clearTimer
               (clearTimer (updTicker a (\<lambda>t. t\<lparr>isPolling := False, isScheduled := False\<rparr>) s)
                  (scheduleTimeout (heap s a)))
               (recapIntervalId (heap s a))"
  have "buffersNamed ?s1"
    using Cons.prems by (simp add: buffersNamed_def prim_defs split: option.splits)
  from Cons.IH[OF this] show ?case by simp
qed

lemma onDisconnected_named: "buffersNamed s \<Longrightarrow> buffersNamed (onDisconnected s)"
  using disconnect_fold_named[of s "map snd (activeTickers s)"]
  by (simp add: onDisconnected_def saveSeenTickers_def buffersNamed_def)

lemma reachable_named: "reachable e s \<Longrightarrow> buffersNamed s"
proof (induction rule: reachable.induct)
  case start
  then show ?case by (simp add: initSys_def buffersNamed_def newTickerState_def)
next
  case (message s msg)
  from onMessage_named[OF message.IH] show ?case .
next
  case (scheduler s)
  from masterScheduler_named[OF scheduler.IH] show ?case .
next
  case (dispatcher s)
  from dispatcherLoop_named[OF dispatcher.IH] show ?case .
next
  case (fetched s i res)
  from resumeWorker_named[OF fetched.IH] show ?case .
next
  case (timer s h)
  from fireTimer_named[OF timer.IH] show ?case .
next
  case (disconnected s)
  from onDisconnected_named[OF disconnected.IH] show ?case .
next
  case (time s d)
  then show ?case by (simp add: buffersNamed_def)
qed


text \<open>
  Inside the loop of \<^verbatim>\<open>processEvents\<close> the flush is called right after the event has
  been marked seen and pushed to the buffer of the worker's ticker object; a poll worker
  has set the team names of that object before it enters the loop.
\<close>

lemma flush_inside_loop_named:
  assumes "buffersNamed s" and "teamNames (heap s a) \<noteq> None"
  shows "buffersNamed
           (updTicker a (\<lambda>t. t\<lparr>recapEvents := recapEvents t @ [ev]\<rparr>)
              (updTicker a (\<lambda>t. t\<lparr>seen := seen t @ [ev_id ev]\<rparr>) s))"
  using assms by (simp add: buffersNamed_def updTicker_def)

lemma flush_clears:
  assumes "buffersNamed s" and "mapGet (activeTickers s) c = Some a"
  shows "snd (sendRecapMessage e s c) = Returns ()"
    and "recapEvents (heap (fst (sendRecapMessage e s c)) a) = []"
proof -
  have "snd (sendRecapMessage e s c) = Returns () \<and>
        recapEvents (heap (fst (sendRecapMessage e s c)) a) = []"
  proof (cases "recapEvents (heap s a) = []")
    case True
    with assms(2) show ?thesis
      by (simp add: sendRecapMessage_def prim_keeps)
  next
    case False
    with assms(1) obtain n where "teamNames (heap s a) = Some n"
      by (auto simp add: buffersNamed_def)
    with assms(2) show ?thesis
      by (simp add: sendRecapMessage_def Let_def prim_keeps)
  qed
  then show "snd (sendRecapMessage e s c) = Returns ()"
    and "recapEvents (heap (fst (sendRecapMessage e s c)) a) = []"
    by simp_all
qed

text \<open>
  Claim C9. In every reachable state each ticker object that has buffered events has its
  team names, and in every such state, for whatever reason the flush is called (the
  timer, a period event inside \<^verbatim>\<open>processEvents\<close>) and whether or not the messenger
  delivers the recap, \<^verbatim>\<open>sendRecapMessage\<close> on a registered ticker returns and leaves that
  ticker's buffer empty.
\<close>

theorem recap_flush_leaves_buffer_empty:
  "(reachable e s \<longrightarrow> buffersNamed s) \<and>
   (buffersNamed s \<longrightarrow> mapGet (activeTickers s) c = Some a \<longrightarrow>
      snd (sendRecapMessage e s c) = Returns () \<and>
      recapEvents (heap (fst (sendRecapMessage e s c)) a) = [])"
  using reachable_named[of e s] flush_clears[of s c a e] by blast

text \<open>
  The ticker of chat B polls in recap mode and has buffered two goals; the messenger
  rejects the next message. The flush sends the recap, the delivery fails, and the buffer
  is empty.
\<close>

theorem recap_flush_leaves_buffer_empty_witness:
  "reachable env3 sC4 \<and> buffersNamed sC4 \<and> mapGet (activeTickers sC4) ''B'' = Some 0 \<and>
   recapEvents (heap sC4 0) = [goal1, goal2] \<and> isPolling (heap sC4 0) \<and>
   \<not> sendOk env3 (sends sC4) \<and>
   snd (sendRecapMessage env3 sC4 ''B'') = Returns () \<and>
   recapEvents (heap (fst (sendRecapMessage env3 sC4 ''B'')) 0) = []"
proof -
  have m: "mapGet (activeTickers sC4) ''B'' = Some 0"
    by (simp add: sC4_eq sC2_eq sC_eq mapGet_def)
  have f: "recapEvents (heap sC4 0) = [goal1, goal2]" "isPolling (heap sC4 0)"
    "\<not> sendOk env3 (sends sC4)"
    by (simp_all add: sC4_eq sC2_eq sC_eq tickerB_def tickerB0_def env3_def env0_def)
  from recap_flush_leaves_buffer_empty[of env3 sC4 "''B''" 0] sC4_reachable m f
  show ?thesis by simp
qed

section \<open>Seen event ids\<close>

lemma idsQuiet_refl [simp]: "idsQuiet s s"
  by (simp add: idsQuiet_def)

















lemma idsKept_refl [simp]: "idsKept s s"
  by (simp add: idsKept_def)




























section \<open>A run that drops the seen ids of a chat\<close>















section \<open>The event processor on seen events\<close>







section \<open>Live messages\<close>

lemma formatEvent_names:
  "teamNames t' = teamNames t \<Longrightarrow> formatEvent ev t' gs = formatEvent ev t gs"
  by (simp add: formatEvent_def)

lemma formatEvent_nonempty: "formatEvent ev t gs = Some m \<Longrightarrow> m \<noteq> []"
  by (auto simp add: formatEvent_def Let_def nl_def split: if_splits option.splits)

lemma sentTexts_append: "sentTexts (fx @ gx) = sentTexts fx @ sentTexts gx"
  by (induction fx rule: sentTexts.induct) simp_all

lemma gameEnd_outbox: "outbox (gameEnd e gd evs a c s) = outbox s"
  by (simp add: gameEnd_def prim_keeps Let_def split: option.splits)

lemma loopBody_live:
  assumes live: "mode (heap s a) = Some Live"
    and new: "ev_id ev \<notin> set (seen (heap s a))"
  shows "loopBody e gd evs a c ev s =
          (case formatEvent ev (heap s a) (gd_summary gd) of
             None \<Rightarrow> (updTicker a (\<lambda>t. t\<lparr>seen := seen t @ [ev_id ev]\<rparr>) s, Raised)
           | Some m \<Rightarrow>
               (let s2 = fst (sendMessage e
                                (updTicker a (\<lambda>t. t\<lparr>seen := seen t @ [ev_id ev]\<rparr>) s) c m)
                in if isGameEnd ev then (gameEnd e gd evs a c s2, Ended) else (s2, Processed)))"
proof -
  let ?s1 = "updTicker a (\<lambda>t. t\<lparr>seen := seen t @ [ev_id ev]\<rparr>) s"
  have f: "formatEvent ev (heap ?s1 a) (gd_summary gd) = formatEvent ev (heap s a) (gd_summary gd)"
    by (rule formatEvent_names) (simp add: prim_keeps)
  have m: "mode (heap ?s1 a) = Some Live" using live by (simp add: prim_keeps)
  show ?thesis
  proof (cases "formatEvent ev (heap s a) (gd_summary gd)")
    case None
    with new m f show ?thesis by (simp add: loopBody_def Let_def)
  next
    case (Some msg)
    from formatEvent_nonempty[OF Some] have "msg \<noteq> []" .
    with Some new m f live show ?thesis
      by (simp add: loopBody_def Let_def prim_keeps)
  qed
qed

lemma eventLoop_live:
  assumes "mode (heap s a) = Some Live" and "teamNames (heap s a) = teamNames t0"
  shows "sentTexts (outbox (fst (eventLoop e gd evs a c xs s n))) =
           sentTexts (outbox s) @
           map (\<lambda>ev. (c, the (formatEvent ev t0 (gd_summary gd))))
             (liveUpTo (\<lambda>ev. formatEvent ev t0 (gd_summary gd))
                (unseenChrono (seen (heap s a)) xs))"
  using assms
proof (induction xs arbitrary: s n)
  case Nil
  then show ?case by simp
next
  case (Cons x xs)
  show ?case
  proof (cases "ev_id x \<in> set (seen (heap s a))")
    case True
    with Cons show ?thesis by (simp add: loopBody_def)
  next
    case False
    let ?s1 = "updTicker a (\<lambda>t. t\<lparr>seen := seen t @ [ev_id x]\<rparr>) s"
    have f: "formatEvent x (heap s a) (gd_summary gd) = formatEvent x t0 (gd_summary gd)"
      by (rule formatEvent_names[OF Cons.prems(2)])
    note lb = loopBody_live[OF Cons.prems(1) False, of e gd evs c]
    show ?thesis
    proof (cases "formatEvent x t0 (gd_summary gd)")
      case None
      with False lb f show ?thesis by (simp add: prim_keeps)
    next
      case (Some m)
      let ?s2 = "fst (sendMessage e ?s1 c m)"
      show ?thesis
      proof (cases "isGameEnd x")
        case True
        with Some False lb f show ?thesis
          by (simp add: Let_def gameEnd_outbox prim_keeps sentTexts_append)
      next
        case g: False
        have m2: "mode (heap ?s2 a) = Some Live" "teamNames (heap ?s2 a) = teamNames t0"
          "seen (heap ?s2 a) = seen (heap s a) @ [ev_id x]"
          using Cons.prems by (simp_all add: prim_keeps)
        from Cons.IH[OF m2(1,2), of True] m2(3) Some False g lb f show ?thesis
          by (simp add: Let_def prim_keeps sentTexts_append)
      qed
    qed
  qed
qed

lemma subseq_sorted_wrt: "subseq xs ys \<Longrightarrow> sorted_wrt P ys \<Longrightarrow> sorted_wrt P xs"
  by (induction rule: list_emb.induct) (auto dest: subseq_set)

lemma subseq_unseenChrono: "subseq (unseenChrono sn xs) xs"
  by (induction xs arbitrary: sn) auto

lemma subseq_liveUpTo: "subseq (liveUpTo fmt xs) xs"
  by (induction xs) (auto split: option.splits)

lemma chronological_delivery_sorted:
  assumes "sorted_wrt (\<lambda>x y. ev_timestamp x \<ge> ev_timestamp y) evs"
  shows "sorted (map ev_timestamp (liveUpTo fmt (unseenChrono sn (rev evs))))"
proof -
  have "sorted_wrt (\<lambda>x y. ev_timestamp x \<le> ev_timestamp y) (rev evs)"
    using assms by (simp add: sorted_wrt_rev)
  from subseq_sorted_wrt[OF subseq_unseenChrono this]
  have "sorted_wrt (\<lambda>x y. ev_timestamp x \<le> ev_timestamp y) (unseenChrono sn (rev evs))" .
  from subseq_sorted_wrt[OF subseq_liveUpTo this]
  show ?thesis by (simp add: sorted_map)
qed

text \<open>
  Claim C4. For a snapshot whose events come newest first, the event processor works
  through the reversed list. In live mode the messages it hands to the messenger are,
  in this order, the texts of the unseen events of the snapshot from the oldest on (up
  to the game end, or to an event whose text cannot be built), and the timestamps of
  these events ascend.
\<close>

theorem live_messages_oldest_first:
  assumes "mode (heap s a) = Some Live"
    and "gd_events gd = EventList evs"
    and "sorted_wrt (\<lambda>x y. ev_timestamp x \<ge> ev_timestamp y) evs"
  shows "sentTexts (outbox (fst (processEvents e s gd a c))) =
           sentTexts (outbox s) @
           map (\<lambda>ev. (c, the (formatEvent ev (heap s a) (gd_summary gd))))
             (liveUpTo (\<lambda>ev. formatEvent ev (heap s a) (gd_summary gd))
                (unseenChrono (seen (heap s a)) (rev evs))) \<and>
         sorted (map ev_timestamp
                   (liveUpTo (\<lambda>ev. formatEvent ev (heap s a) (gd_summary gd))
                      (unseenChrono (seen (heap s a)) (rev evs))))"
  using eventLoop_live[OF assms(1) refl, of e gd "rev evs" c "rev evs" False]
    chronological_delivery_sorted[OF assms(3)] assms(2)
  by (simp add: processEvents_def)

text \<open>
  The live ticker of chat A gets the snapshot with the second goal listed before the
  first: the message for the first goal goes out first.
\<close>

theorem live_messages_oldest_first_witness:
  "mode (heap sA3 0) = Some Live \<and> gd_events twoGoals = EventList [goal2, goal1] \<and>
   sorted_wrt (\<lambda>x y. ev_timestamp x \<ge> ev_timestamp y) [goal2, goal1] \<and>
   formatEvent goal1 tickerA (gd_summary twoGoals) \<noteq> None \<and>
   formatEvent goal2 tickerA (gd_summary twoGoals) \<noteq> None \<and>
   sentTexts (outbox (fst (processEvents env0 sA3 twoGoals 0 ''A''))) =
     sentTexts (outbox sA3) @
     [(''A'', the (formatEvent goal1 tickerA (gd_summary twoGoals))),
      (''A'', the (formatEvent goal2 tickerA (gd_summary twoGoals)))]"
proof -
  have h: "heap sA3 0 = tickerA" by (simp add: sA3_eq sA2_eq sA_eq)
  have m: "mode (heap sA3 0) = Some Live" "seen (heap sA3 0) = []"
    by (simp_all add: h tickerA_def tickerA0_def newTickerState_def)
  have g: "gd_events twoGoals = EventList [goal2, goal1]" by (simp add: twoGoals_def)
  have o: "sorted_wrt (\<lambda>x y. ev_timestamp x \<ge> ev_timestamp y) [goal2, goal1]"
    by (simp add: goal1_def goal2_def)
  have f: "formatEvent goal1 tickerA (gd_summary twoGoals) \<noteq> None"
    "formatEvent goal2 tickerA (gd_summary twoGoals) \<noteq> None"
    by (simp_all add: formatEvent_def goal1_def goal2_def Let_def)
  have n: "\<not> isGameEnd goal1" "\<not> isGameEnd goal2" "ev_id goal1 \<noteq> ev_id goal2"
    by (simp_all add: isGameEnd_def goal1_def goal2_def)
  from live_messages_oldest_first[OF m(1) g o, of env0 "''A''"] m g o f n h
  show ?thesis by auto
qed


section \<open>The end of a game\<close>

lemma sendRecapMessage_frame:
  assumes "sendRecapMessage e s c = (s', r)"
  shows "timers s' = timers s \<and> nextTimer s' = nextTimer s \<and> jobQueue s' = jobQueue s \<and>
         isPolling (heap s' b) = isPolling (heap s b) \<and>
         recapIntervalId (heap s' b) = recapIntervalId (heap s b) \<and>
         teamNames (heap s' b) = teamNames (heap s b) \<and>
         groupName (heap s' b) = groupName (heap s b)"
  using assms
  by (auto simp add: sendRecapMessage_def prim_keeps Let_def split: option.splits if_splits)

lemma gameEnd_effect:
  "\<not> isPolling (heap (gameEnd e gd evs a c s) a)"
  "jobQueue (gameEnd e gd evs a c s) = removeFirstJob c (jobQueue s)"
  "timers (gameEnd e gd evs a c s) =
     filter (\<lambda>t. Some (tm_handle t) \<noteq> recapIntervalId (heap s a)) (timers s)
       @ endTimers e gd evs (heap s a) c (nextTimer s)"
  by (simp_all add: gameEnd_def endTimers_def prim_keeps clearTimer_timers Let_def
      split: option.splits)


lemma endTimers_cong:
  "teamNames t' = teamNames t \<Longrightarrow> groupName t' = groupName t \<Longrightarrow>
     endTimers e gd evs t' c n = endTimers e gd evs t c n"
  by (simp add: endTimers_def)

text \<open>
  Claim C2, as amended. When a pass through the loop of \<^verbatim>\<open>processEvents\<close> takes an event
  that is not yet seen, is a \<^verbatim>\<open>StopPeriod\<close> and has a minute above 30, and the pass does
  not raise, then: the pass ends the loop, so that no later event of the snapshot is
  processed and \<^verbatim>\<open>processEvents\<close> returns true; the ticker no longer polls; the recap
  timer is cleared and no other pending timer is; the first queued job of the chat, if
  there is one, is removed; and the timers armed are exactly the statistics after 1 s
  and the summary after 2 s (each if its collaborator returns), the closing message
  after 4 s and the removal from the registry after one hour.
\<close>

theorem game_end_stops_ticker:
  assumes new: "ev_id ev \<notin> set (seen (heap s a))"
    and ge: "isGameEnd ev"
    and lb: "loopBody e gd evs a c ev s = (s', p)"
    and nr: "p \<noteq> Raised"
  shows "p = Ended \<and> \<not> isPolling (heap s' a) \<and>
         jobQueue s' = removeFirstJob c (jobQueue s) \<and>
         timers s' =
           filter (\<lambda>t. Some (tm_handle t) \<noteq> recapIntervalId (heap s a)) (timers s)
             @ endTimers e gd evs (heap s a) c (nextTimer s) \<and>
         eventLoop e gd evs a c (ev # rest) s new = (s', Returns True)"
proof -
  let ?s1 = "updTicker a (\<lambda>t. t\<lparr>seen := seen t @ [ev_id ev]\<rparr>) s"
  show ?thesis
  proof (cases "if mode (heap ?s1 a) = Some Live
                then formatEvent ev (heap ?s1 a) (gd_summary gd) else Some []")
    case None
    with lb new nr show ?thesis by (auto simp add: loopBody_def Let_def)
  next
    case (Some msg)
    let ?s2 = "if mode (heap ?s1 a) = Some Live \<and> msg \<noteq> []
               then fst (sendMessage e ?s1 c msg)
               else if mode (heap ?s1 a) = Some Recap
               then updTicker a (\<lambda>t. t\<lparr>recapEvents := recapEvents t @ [ev]\<rparr>) ?s1
               else ?s1"
    have k2: "timers ?s2 = timers s" "nextTimer ?s2 = nextTimer s" "jobQueue ?s2 = jobQueue s"
      "recapIntervalId (heap ?s2 a) = recapIntervalId (heap s a)"
      "teamNames (heap ?s2 a) = teamNames (heap s a)"
      "groupName (heap ?s2 a) = groupName (heap s a)"
      by (simp_all add: prim_keeps)
    let ?call = "if (ev_type ev = ''StopPeriod'' \<or> ev_type ev = ''StartPeriod'')
                    \<and> mode (heap ?s2 a) = Some Recap
                 then sendRecapMessage e ?s2 c else (?s2, Returns ())"
    obtain s3 r3 where c3: "?call = (s3, r3)" by (cases ?call)
    have k3: "timers s3 = timers s" "nextTimer s3 = nextTimer s" "jobQueue s3 = jobQueue s"
      "recapIntervalId (heap s3 a) = recapIntervalId (heap s a)"
      "teamNames (heap s3 a) = teamNames (heap s a)"
      "groupName (heap s3 a) = groupName (heap s a)"
      using c3 k2 sendRecapMessage_frame[of e ?s2 c s3 r3 a]
      by (auto split: if_splits)
    have r: "r3 = Returns ()"
      using lb new Some c3 nr by (cases r3) (auto simp add: loopBody_def Let_def)
    have res: "s' = gameEnd e gd evs a c s3" "p = Ended"
      using lb new Some c3 r ge by (auto simp add: loopBody_def Let_def)
    have t: "endTimers e gd evs (heap s3 a) c (nextTimer s3) =
               endTimers e gd evs (heap s a) c (nextTimer s)"
      using endTimers_cong[OF k3(5) k3(6)] k3(2) by simp
    have "eventLoop e gd evs a c (ev # rest) s new = (s', Returns True)"
      using lb res by simp
    with res k3 t show ?thesis by (simp add: gameEnd_effect)
  qed
qed


section \<open>The run through the end of a game\<close>

lemmas dataE_defs = envE_def later_def fullTime_def gdEnd_def gdEnd2_def blankWhistle_def
  gdBlank_def pollE_def scheduleTimerA_def

lemmas end_defs = scheduleLater_def gameEnd_def eventInfo_def EVENT_MAP_def emoji_def label_def infoEmoji_def infoLabel_def
  parseInt_def whiteSpace_def skipAll.simps isDigit_def digitOf_def digitsValue_def gt30_def formatEvent_def
  fireTimer_def runCallback_def

lemma sE1_eq: "sE1 = sA"
  by (simp add: sE1_def sA_eq dataE_defs data_defs step_defs)

lemma sE2_eq:
  "sE2 = sA\<lparr>jobQueue := [jobA, jobA],
             outbox := outbox sA @ [Sent ''A'' (planningNotice ''Fans A'') True], sends := 2\<rparr>"
  by (simp add: sE2_def sE1_eq sA_eq dataE_defs data_defs step_defs)

lemma sE3_eq:
  "sE3 = sE2\<lparr>jobQueue := [jobA, jobA, jobA],
              outbox := outbox sE2 @ [Sent ''A'' (planningNotice ''Fans A'') True], sends := 3\<rparr>"
  by (simp add: sE3_def sE2_eq sA_eq dataE_defs data_defs step_defs)

lemma sE4_eq:
  "sE4 = sE3\<lparr>jobQueue := [jobA, jobA], activeWorkers := 1, inflight := [(jobA, 0)]\<rparr>"
  by (simp add: sE4_def sE3_eq sE2_eq sA_eq dataE_defs data_defs step_defs)

lemma sE5_eq:
  "sE5 = sE3\<lparr>heap := (heap sE3)(0 := tickerA0\<lparr>isScheduled := True, teamNames := Some namesHG,
                                               lastUpdatedAt := Some ''v0'',
                                               scheduleTimeout := Some 0\<rparr>),
              jobQueue := [jobA, jobA], timers := [scheduleTimerA], nextTimer := 1,
              scheduleFile := [''A'' \<mapsto> \<lparr>ss_meetingPageUrl = Some ''https://h.net/a'',
                                         ss_startTime = ''2026-11-01T17:55:00.000Z'',
                                         ss_groupName = Some ''Fans A'', ss_mode = Some Live\<rparr>],
              outbox := outbox sE3 @
                [Sent ''A'' (scheduledNotice namesHG (Some Live) ''01.11.2026'' ''18:55'') True,
                 SavedSchedule],
              sends := 4\<rparr>"
  by (simp add: sE5_def sE4_eq sE3_eq sE2_eq sA_eq dataE_defs data_defs step_defs end_defs)

lemma sE6_eq: "sE6 = sE5\<lparr>jobQueue := [jobA], activeWorkers := 1, inflight := [(jobA, 0)]\<rparr>"
  by (simp add: sE6_def sE5_eq sE3_eq sE2_eq sA_eq dataE_defs data_defs step_defs)

lemma sE8_eq:
  "sE8 = sE5\<lparr>heap := (heap sE5)(0 := tickerA\<lparr>scheduleTimeout := Some 0\<rparr>),
              jobQueue := [pollE, jobA], scheduleFile := Map.empty,
              outbox := outbox sE5 @
                [Sent ''A'' (startMessage namesHG (Some Live)) True, SavedSchedule],
              sends := 5, clock := 800000\<rparr>"
  by (simp add: sE8_def sE7_def sE6_eq sE5_eq sE3_eq sE2_eq sA_eq dataE_defs data_defs step_defs
      end_defs)

lemma sE9_eq: "sE9 = sE8\<lparr>jobQueue := [jobA], activeWorkers := 1, inflight := [(pollE, 0)]\<rparr>"
  by (simp add: sE9_def sE8_eq sE5_eq sE3_eq sE2_eq sA_eq dataE_defs data_defs step_defs)

lemma sE10_eq: "sE10 = sE9\<lparr>jobQueue := [jobA, pollE], lastPolledIndex := 0\<rparr>"
  by (simp add: sE10_def sE9_eq sE8_eq sE5_eq sE3_eq sE2_eq sA_eq dataE_defs data_defs step_defs)

lemma sE11_eq:
  "sE11 = sE8\<lparr>heap := (heap sE8)(0 := tickerA\<lparr>seen := [''e9''], isPolling := False,
                                               lastUpdatedAt := Some ''v1'',
                                               scheduleTimeout := Some 0\<rparr>),
               jobQueue := [pollE], lastPolledIndex := 0,
               timers := [scheduleTimerA,
                          \<lparr>tm_handle = 1, tm_delay = 1000, tm_interval = False,
                            tm_action = SendStats ''A'' ''stats''\<rparr>,
                          \<lparr>tm_handle = 2, tm_delay = 4000, tm_interval = False,
                            tm_action = SendFinalMessage ''A''\<rparr>,
                          \<lparr>tm_handle = 3, tm_delay = 3600000, tm_interval = False,
                            tm_action = Cleanup ''A''\<rparr>],
               nextTimer := 4, seenFile := [(''A'', [''e9''])],
               outbox := outbox sE8 @
                 [Sent ''A'' (the (formatEvent fullTime tickerA (gd_summary gdEnd))) True,
                  SavedSeen],
               sends := 6\<rparr>"
  by (simp add: sE11_def sE10_eq sE9_eq sE8_eq sE5_eq sE3_eq sE2_eq sA_eq dataE_defs data_defs
      step_defs poll_defs end_defs)

lemma sE12_eq:
  "sE12 = sE11\<lparr>heap := (heap sE11)(0 := tickerA\<lparr>seen := [''e9''],
                                                 lastUpdatedAt := Some ''v1'',
                                                 scheduleTimeout := Some 0\<rparr>),
                timers := [\<lparr>tm_handle = 1, tm_delay = 1000, tm_interval = False,
                             tm_action = SendStats ''A'' ''stats''\<rparr>,
                           \<lparr>tm_handle = 2, tm_delay = 4000, tm_interval = False,
                             tm_action = SendFinalMessage ''A''\<rparr>,
                           \<lparr>tm_handle = 3, tm_delay = 3600000, tm_interval = False,
                             tm_action = Cleanup ''A''\<rparr>]\<rparr>"
  by (simp add: sE12_def sE11_eq sE8_eq sE5_eq sE3_eq sE2_eq sA_eq dataE_defs data_defs
      step_defs end_defs)

lemma sE13_eq: "sE13 = sE12\<lparr>jobQueue := [], activeWorkers := 1, inflight := [(pollE, 0)]\<rparr>"
  by (simp add: sE13_def sE12_eq sE11_eq sE8_eq sE5_eq sE3_eq sE2_eq sA_eq dataE_defs data_defs
      step_defs)

lemma sE14_eq:
  "sE14 = sE12\<lparr>heap := (heap sE12)(0 := tickerA\<lparr>seen := [''e9''],
                                                 lastUpdatedAt := Some ''v2'',
                                                 scheduleTimeout := Some 0\<rparr>),
                jobQueue := []\<rparr>"
  by (simp add: sE14_def sE13_eq sE12_eq sE11_eq sE8_eq sE5_eq sE3_eq sE2_eq sA_eq dataE_defs
      data_defs step_defs poll_defs end_defs)


lemma sE14_reachable: "reachable envE sE14"
proof -
  have "reachable envE sE6"
    unfolding sE6_def sE5_def sE4_def sE3_def sE2_def sE1_def by (intro reachable.intros)
  then have "reachable envE sE7"
    unfolding sE7_def by (rule reachable.time) simp
  then show ?thesis
    unfolding sE14_def sE13_def sE12_def sE11_def sE10_def sE9_def sE8_def
    by (intro reachable.intros)
qed

lemma whistles:
  "isGameEnd fullTime" "isGameEnd blankWhistle"
  by (simp_all add: isGameEnd_def fullTime_def blankWhistle_def truthy_def interp_def
      parseInt_def whiteSpace_def skipAll.simps isDigit_def digitOf_def digitsValue_def gt30_def)

text \<open>
  Claim C2 as stated fails, on the run described above.
  \<^item> The poll of \<open>sE10\<close> brings the final whistle, unseen, and the ticker stops polling; but
    the schedule timer armed by the first schedule job is still pending, a job of the chat
    is still queued (only the first one was removed), and no summary timer is armed,
    because the summary generator rejected.
  \<^item> The schedule timer then fires and the ticker polls again (\<open>sE13\<close>). The next snapshot
    holds the same final whistle, now seen: the ticker keeps polling and no timer is armed.
  \<^item> Had the poll of \<open>sE10\<close> brought a final whistle without a score, the live text could
    not have been built: the event is marked seen and the ticker keeps polling.
\<close>

theorem final_whistle_counterexample:
  "reachable envE sE14 \<and>
   sE11 = resumeWorker envE sE10 0 (Response (Some gdEnd)) \<and>
   gd_events gdEnd = EventList [fullTime] \<and> isGameEnd fullTime \<and>
   isPolling (heap sE10 0) \<and> ev_id fullTime \<notin> set (seen (heap sE10 0)) \<and>
   \<not> isPolling (heap sE11 0) \<and>
   scheduleTimeout (heap sE11 0) = Some (tm_handle scheduleTimerA) \<and>
   scheduleTimerA \<in> set (timers sE11) \<and>
   map job_chatId (jobQueue sE10) = [''A'', ''A''] \<and>
   map job_chatId (jobQueue sE11) = [''A''] \<and>
   map tm_delay (timers sE11) = [700000, 1000, 4000, 3600000] \<and>
   sE14 = resumeWorker envE sE13 0 (Response (Some gdEnd2)) \<and>
   gd_events gdEnd2 = EventList [fullTime] \<and>
   isPolling (heap sE13 0) \<and> isPolling (heap sE14 0) \<and> timers sE14 = timers sE13 \<and>
   gd_events gdBlank = EventList [blankWhistle] \<and> isGameEnd blankWhistle \<and>
   isPolling (heap (resumeWorker envE sE10 0 (Response (Some gdBlank))) 0) \<and>
   ''e8'' \<in> set (seen (heap (resumeWorker envE sE10 0 (Response (Some gdBlank))) 0))"
proof -
  have a: "isPolling (heap sE10 0)" "ev_id fullTime \<notin> set (seen (heap sE10 0))"
    "map job_chatId (jobQueue sE10) = [''A'', ''A'']"
    by (simp_all add: sE10_eq sE9_eq sE8_eq sE5_eq sE3_eq sE2_eq sA_eq data_defs dataE_defs)
  have b: "\<not> isPolling (heap sE11 0)"
    "scheduleTimeout (heap sE11 0) = Some (tm_handle scheduleTimerA)"
    "scheduleTimerA \<in> set (timers sE11)" "map job_chatId (jobQueue sE11) = [''A'']"
    "map tm_delay (timers sE11) = [700000, 1000, 4000, 3600000]"
    by (simp_all add: sE11_eq sE8_eq sE5_eq sE3_eq sE2_eq sA_eq data_defs dataE_defs)
  have c: "isPolling (heap sE13 0)" "isPolling (heap sE14 0)" "timers sE14 = timers sE13"
    by (simp_all add: sE14_eq sE13_eq sE12_eq sE11_eq sE8_eq sE5_eq sE3_eq sE2_eq sA_eq
        data_defs dataE_defs)
  have d: "isPolling (heap (resumeWorker envE sE10 0 (Response (Some gdBlank))) 0)"
    "''e8'' \<in> set (seen (heap (resumeWorker envE sE10 0 (Response (Some gdBlank))) 0))"
    by (simp_all add: sE10_eq sE9_eq sE8_eq sE5_eq sE3_eq sE2_eq sA_eq dataE_defs data_defs
        step_defs poll_defs end_defs)
  have e: "gd_events gdEnd = EventList [fullTime]" "gd_events gdEnd2 = EventList [fullTime]"
    "gd_events gdBlank = EventList [blankWhistle]"
    by (simp_all add: gdEnd_def gdEnd2_def gdBlank_def)
  from sE14_reachable whistles a b c d e show ?thesis
    by (simp add: sE11_def sE14_def)
qed

text \<open>
  On the same run with a summary generator that returns: the pass for the final whistle
  in the state \<open>sE10\<close> ends the loop, the ticker stops polling, the first of the two
  queued jobs of chat A is removed, and besides the schedule timer, which stays, the
  four timers of the game end are armed.
\<close>

theorem game_end_stops_ticker_witness:
  "ev_id fullTime \<notin> set (seen (heap sE10 0)) \<and> isGameEnd fullTime \<and>
   snd (loopBody env0 gdEnd [fullTime] 0 ''A'' fullTime sE10) \<noteq> Raised \<and>
   snd (loopBody env0 gdEnd [fullTime] 0 ''A'' fullTime sE10) = Ended \<and>
   \<not> isPolling (heap (fst (loopBody env0 gdEnd [fullTime] 0 ''A'' fullTime sE10)) 0) \<and>
   jobQueue sE10 = [jobA, pollE] \<and>
   jobQueue (fst (loopBody env0 gdEnd [fullTime] 0 ''A'' fullTime sE10)) = [pollE] \<and>
   map tm_delay (timers (fst (loopBody env0 gdEnd [fullTime] 0 ''A'' fullTime sE10)))
     = [700000, 1000, 2000, 4000, 3600000]"
proof -
  have u: "ev_id fullTime \<notin> set (seen (heap sE10 0))"
    by (simp add: sE10_eq sE9_eq sE8_eq sE5_eq sE3_eq sE2_eq sA_eq data_defs dataE_defs)
  have r: "snd (loopBody env0 gdEnd [fullTime] 0 ''A'' fullTime sE10) \<noteq> Raised"
    by (simp add: sE10_eq sE9_eq sE8_eq sE5_eq sE3_eq sE2_eq sA_eq dataE_defs data_defs
        step_defs poll_defs end_defs)
  have q: "jobQueue sE10 = [jobA, pollE]" "timers sE10 = [scheduleTimerA]" "nextTimer sE10 = 1"
    "recapIntervalId (heap sE10 0) = None"
    by (simp_all add: sE10_eq sE9_eq sE8_eq sE5_eq sE3_eq sE2_eq sA_eq data_defs dataE_defs)
  have t: "map tm_delay (endTimers env0 gdEnd [fullTime] (heap sE10 0) ''A'' 1) =
             [1000, 2000, 4000, 3600000]"
    by (simp add: endTimers_def env0_def)
  have j: "removeFirstJob ''A'' [jobA, pollE] = [pollE]" by (simp add: jobA_def)
  from game_end_stops_ticker[OF u whistles(1) surjective_pairing r, of "[]" False] u whistles(1) r q t j
  show ?thesis by (simp add: scheduleTimerA_def)
qed

end
